theory Spec2Isabelle
  imports Complex_Main
begin

section \<open>Tensor elements\<close>

text \<open>
  The notebooks compute on floating-point tensors. Rounding and overflow are not
  modelled: a finite element is a real number. What is modelled is the way the
  arithmetic leaves the finite numbers: \<open>0/0\<close> and \<open>inf - inf\<close> are \<open>NaN\<close>, a non-zero
  number divided by zero is an infinity, and \<open>NaN\<close> propagates. A zero is the positive
  zero (every zero divisor of the notebooks is a square root or a count).
\<close>

datatype num = Fin real | PInf | NInf | NaN

fun fneg :: "num \<Rightarrow> num" where
  "fneg (Fin a) = Fin (- a)"
| "fneg PInf = NInf"
| "fneg NInf = PInf"
| "fneg NaN = NaN"

fun fadd :: "num \<Rightarrow> num \<Rightarrow> num" where
  "fadd (Fin a) (Fin b) = Fin (a + b)"
| "fadd NaN _ = NaN"
| "fadd _ NaN = NaN"
| "fadd PInf NInf = NaN"
| "fadd NInf PInf = NaN"
| "fadd PInf _ = PInf"
| "fadd _ PInf = PInf"
| "fadd NInf _ = NInf"
| "fadd _ NInf = NInf"

definition fsub :: "num \<Rightarrow> num \<Rightarrow> num" where
  "fsub a b = fadd a (fneg b)"

fun fmul :: "num \<Rightarrow> num \<Rightarrow> num" where
  "fmul (Fin a) (Fin b) = Fin (a * b)"
| "fmul NaN _ = NaN"
| "fmul _ NaN = NaN"
| "fmul (Fin a) PInf = (if a = 0 then NaN else if 0 < a then PInf else NInf)"
| "fmul (Fin a) NInf = (if a = 0 then NaN else if 0 < a then NInf else PInf)"
| "fmul PInf (Fin b) = (if b = 0 then NaN else if 0 < b then PInf else NInf)"
| "fmul NInf (Fin b) = (if b = 0 then NaN else if 0 < b then NInf else PInf)"
| "fmul PInf PInf = PInf"
| "fmul NInf NInf = PInf"
| "fmul PInf NInf = NInf"
| "fmul NInf PInf = NInf"

fun fdiv :: "num \<Rightarrow> num \<Rightarrow> num" where
  "fdiv (Fin a) (Fin b) =
     (if b \<noteq> 0 then Fin (a / b)
      else if a = 0 then NaN else if 0 < a then PInf else NInf)"
| "fdiv NaN _ = NaN"
| "fdiv _ NaN = NaN"
| "fdiv (Fin a) _ = Fin 0"
| "fdiv PInf (Fin b) = (if 0 \<le> b then PInf else NInf)"
| "fdiv NInf (Fin b) = (if 0 \<le> b then NInf else PInf)"
| "fdiv PInf PInf = NaN"
| "fdiv PInf NInf = NaN"
| "fdiv NInf PInf = NaN"
| "fdiv NInf NInf = NaN"

fun fsqrt :: "num \<Rightarrow> num" where
  "fsqrt (Fin a) = (if a < 0 then NaN else Fin (sqrt a))"
| "fsqrt PInf = PInf"
| "fsqrt NInf = NaN"
| "fsqrt NaN = NaN"

text \<open>\<open>torch.pow(t, 2)\<close> on one element.\<close>

definition fpow2 :: "num \<Rightarrow> num" where
  "fpow2 a = fmul a a"




text \<open>Reductions of a one-dimensional tensor: \<open>sum\<close>, \<open>mean\<close>, and \<open>std\<close> with
  torch's default (Bessel's correction: the divisor is the number of elements minus one,
  and not below zero).\<close>

definition fsum :: "num list \<Rightarrow> num" where
  "fsum xs = foldl fadd (Fin 0) xs"

definition fmean :: "num list \<Rightarrow> num" where
  "fmean xs = fdiv (fsum xs) (Fin (real (length xs)))"

definition fstd :: "num list \<Rightarrow> num" where
  "fstd xs =
     fsqrt (fdiv (fsum (map (\<lambda>x. fpow2 (fsub x (fmean xs))) xs))
                 (Fin (real (length xs - 1))))"

section \<open>Exceptions\<close>

text \<open>\<open>Ext\<close> is an exception raised inside a call of an external library
  (urllib, scipy, torch, gpytorch), named by the library.\<close>

datatype exn =
  IndexError | RuntimeError | TypeError | AttributeError | FileNotFoundError | Ext string

section \<open>Two-dimensional tensors and the KeOps notebook's data cell\<close>

record mat =
  ncols :: nat
  rows :: "num list list"

definition wf_mat :: "mat \<Rightarrow> bool" where
  "wf_mat A = list_all (\<lambda>r. length r = ncols A) (rows A)"

definition nrows :: "mat \<Rightarrow> nat" where
  "nrows A = length (rows A)"

text \<open>Python's \<open>int(x)\<close> on a float truncates towards zero.\<close>

definition py_int :: "real \<Rightarrow> int" where
  "py_int x = (if x < 0 then \<lceil>x\<rceil> else \<lfloor>x\<rfloor>)"

text \<open>The slices \<open>A[:n]\<close>, \<open>A[n:]\<close>, \<open>A[:, :-1]\<close> and the index \<open>A[:, -1]\<close>, which
  raises on a tensor without columns.\<close>

definition rows_to :: "nat \<Rightarrow> mat \<Rightarrow> mat" where
  "rows_to n A = A\<lparr>rows := take n (rows A)\<rparr>"

definition rows_from :: "nat \<Rightarrow> mat \<Rightarrow> mat" where
  "rows_from n A = A\<lparr>rows := drop n (rows A)\<rparr>"

definition cols_but_last :: "mat \<Rightarrow> mat" where
  "cols_but_last A = \<lparr>ncols = ncols A - 1, rows = map butlast (rows A)\<rparr>"

definition col_last :: "mat \<Rightarrow> exn + num list" where
  "col_last A = (if ncols A = 0 then Inl IndexError else Inr (map last (rows A)))"

record dataset =
  train_x :: mat
  train_y :: "num list"
  test_x :: mat
  test_y :: "num list"

text \<open>\<open>n_train = int(0.8 * N)\<close>. The product is computed in floating point; the
  model takes the exact product. The two truncate to the same integer for every number
  of rows below \<open>2^50\<close>: the constant \<open>0.8\<close> is rounded up by less than one part in
  \<open>2^53\<close>, which carries the product across no integer.\<close>

definition n_train_of :: "nat \<Rightarrow> nat" where
  "n_train_of N = nat (py_int (0.8 * real N))"

definition split_cell :: "mat \<Rightarrow> exn + dataset" where
  "split_cell data =
     (let N = nrows data;
          n_train = n_train_of N
      in case col_last (rows_to n_train data) of
           Inl e \<Rightarrow> Inl e
         | Inr tr_y \<Rightarrow>
        (case col_last (rows_from n_train data) of
           Inl e \<Rightarrow> Inl e
         | Inr te_y \<Rightarrow>
             Inr \<lparr>train_x = cols_but_last (rows_to n_train data), train_y = tr_y,
                  test_x = cols_but_last (rows_from n_train data), test_y = te_y\<rparr>))"

text \<open>Sequencing of computations that may raise: the first exception ends the cell.\<close>

definition ebind :: "exn + 'a \<Rightarrow> ('a \<Rightarrow> exn + 'b) \<Rightarrow> exn + 'b" where
  "ebind m f = (case m of Inl e \<Rightarrow> Inl e | Inr a \<Rightarrow> f a)"

text \<open>Reductions along the row dimension with \<open>keepdim=True\<close> (\<open>dim=-2\<close> of a
  two-dimensional tensor): the result has one row.\<close>

definition col :: "mat \<Rightarrow> nat \<Rightarrow> num list" where
  "col A j = map (\<lambda>r. r ! j) (rows A)"

definition mean_dim0 :: "mat \<Rightarrow> mat" where
  "mean_dim0 A = \<lparr>ncols = ncols A, rows = [map (\<lambda>j. fmean (col A j)) [0..<ncols A]]\<rparr>"

definition std_dim0 :: "mat \<Rightarrow> mat" where
  "std_dim0 A = \<lparr>ncols = ncols A, rows = [map (\<lambda>j. fstd (col A j)) [0..<ncols A]]\<rparr>"

definition add_scalar :: "mat \<Rightarrow> num \<Rightarrow> mat" where
  "add_scalar A c = A\<lparr>rows := map (map (\<lambda>x. fadd x c)) (rows A)\<rparr>"

text \<open>Elementwise binary operations with broadcasting: two sizes are compatible when
  they are equal or one of them is 1; otherwise torch raises a RuntimeError.\<close>

definition bdim :: "nat \<Rightarrow> nat \<Rightarrow> nat option" where
  "bdim a b = (if a = b then Some a else if b = 1 then Some a
               else if a = 1 then Some b else None)"

definition bget :: "mat \<Rightarrow> nat \<Rightarrow> nat \<Rightarrow> num" where
  "bget A i j = rows A ! (if nrows A = 1 then 0 else i) ! (if ncols A = 1 then 0 else j)"

definition bcast :: "(num \<Rightarrow> num \<Rightarrow> num) \<Rightarrow> mat \<Rightarrow> mat \<Rightarrow> exn + mat" where
  "bcast f A B =
     (case bdim (nrows A) (nrows B) of
        None \<Rightarrow> Inl RuntimeError
      | Some r \<Rightarrow>
     (case bdim (ncols A) (ncols B) of
        None \<Rightarrow> Inl RuntimeError
      | Some c \<Rightarrow>
          Inr \<lparr>ncols = c,
               rows = map (\<lambda>i. map (\<lambda>j. f (bget A i j) (bget B i j)) [0..<c]) [0..<r]\<rparr>))"

text \<open>The mean and the divisor of the feature normalisation, both computed from the
  training features.\<close>

definition feature_mean :: "mat \<Rightarrow> mat" where
  "feature_mean tr_x = mean_dim0 tr_x"

definition feature_divisor :: "mat \<Rightarrow> mat" where
  "feature_divisor tr_x = add_scalar (std_dim0 tr_x) (Fin 0.000001)"

definition normalize_features :: "mat \<Rightarrow> mat \<Rightarrow> mat \<Rightarrow> exn + mat" where
  "normalize_features mean std x = ebind (bcast fsub x mean) (\<lambda>d. bcast fdiv d std)"

definition normalize_labels :: "num \<Rightarrow> num \<Rightarrow> num list \<Rightarrow> num list" where
  "normalize_labels mean std y = map (\<lambda>v. fdiv (fsub v mean) std) y"

definition normalize_cell :: "dataset \<Rightarrow> exn + dataset" where
  "normalize_cell ds =
     (let mean = feature_mean (train_x ds);
          std = feature_divisor (train_x ds)
      in ebind (normalize_features mean std (train_x ds)) (\<lambda>tr_x.
         ebind (normalize_features mean std (test_x ds)) (\<lambda>te_x.
           let mean = fmean (train_y ds);
               std = fstd (train_y ds)
           in Inr \<lparr>train_x = tr_x, train_y = normalize_labels mean std (train_y ds),
                   test_x = te_x, test_y = normalize_labels mean std (test_y ds)\<rparr>)))"

text \<open>The whole data cell; \<open>contiguous()\<close> and \<open>to(device)\<close> keep every element.\<close>

definition data_cell :: "mat \<Rightarrow> exn + dataset" where
  "data_cell data = ebind (split_cell data) normalize_cell"

text \<open>A feature tensor and a target tensor read back as rows of the data matrix: the
  features of a row followed by its target.\<close>

definition join_xy :: "mat \<Rightarrow> num list \<Rightarrow> num list list" where
  "join_xy X y = map2 (\<lambda>r v. r @ [v]) (rows X) y"

text \<open>A small data matrix: five rows, two feature columns and a target column.\<close>

definition example_data :: mat where
  "example_data =
     \<lparr>ncols = 3,
      rows = [[Fin 1, Fin 2, Fin 10], [Fin 3, Fin 5, Fin 20], [Fin 5, Fin 4, Fin 30],
              [Fin 7, Fin 9, Fin 40], [Fin 9, Fin 6, Fin 50]]\<rparr>"


text \<open>The split of \<open>example_data\<close>: four training rows and one test row.\<close>

definition example_split :: dataset where
  "example_split =
     \<lparr>train_x = \<lparr>ncols = 2, rows = [[Fin 1, Fin 2], [Fin 3, Fin 5], [Fin 5, Fin 4], [Fin 7, Fin 9]]\<rparr>,
      train_y = [Fin 10, Fin 20, Fin 30, Fin 40],
      test_x = \<lparr>ncols = 2, rows = [[Fin 9, Fin 6]]\<rparr>,
      test_y = [Fin 50]\<rparr>"

section \<open>Tensors of any dimension\<close>

text \<open>A tensor is its shape and its elements in row-major order.\<close>

record tensor =
  shape :: "nat list"
  elems :: "num list"

definition wf_tensor :: "tensor \<Rightarrow> bool" where
  "wf_tensor t = (length (elems t) = prod_list (shape t))"


definition of_vec :: "num list \<Rightarrow> tensor" where
  "of_vec v = \<lparr>shape = [length v], elems = v\<rparr>"

definition tmap :: "(num \<Rightarrow> num) \<Rightarrow> tensor \<Rightarrow> tensor" where
  "tmap f t = t\<lparr>elems := map f (elems t)\<rparr>"

text \<open>Broadcasting: the shapes are aligned at the last dimension, a missing dimension
  counts as 1, and two sizes are compatible when they are equal or one of them is 1.\<close>

fun bshape_rev :: "nat list \<Rightarrow> nat list \<Rightarrow> nat list option" where
  "bshape_rev [] ys = Some ys"
| "bshape_rev xs [] = Some xs"
| "bshape_rev (x # xs) (y # ys) =
     (case bdim x y of
        None \<Rightarrow> None
      | Some d \<Rightarrow> (case bshape_rev xs ys of None \<Rightarrow> None | Some ds \<Rightarrow> Some (d # ds)))"

definition bshape :: "nat list \<Rightarrow> nat list \<Rightarrow> nat list option" where
  "bshape xs ys = map_option rev (bshape_rev (rev xs) (rev ys))"

fun unravel :: "nat list \<Rightarrow> nat \<Rightarrow> nat list" where
  "unravel [] k = []"
| "unravel (d # ds) k = (k div prod_list ds) # unravel ds (k mod prod_list ds)"

fun ravel :: "nat list \<Rightarrow> nat list \<Rightarrow> nat" where
  "ravel (d # ds) (i # is) = i * prod_list ds + ravel ds is"
| "ravel _ _ = 0"

definition bc_get :: "tensor \<Rightarrow> nat list \<Rightarrow> nat \<Rightarrow> num" where
  "bc_get t out_shape k =
     (let idx = drop (length out_shape - length (shape t)) (unravel out_shape k)
      in elems t ! ravel (shape t) (map2 (\<lambda>sz i. if sz = 1 then 0 else i) (shape t) idx))"

definition tbin :: "(num \<Rightarrow> num \<Rightarrow> num) \<Rightarrow> tensor \<Rightarrow> tensor \<Rightarrow> exn + tensor" where
  "tbin f a b =
     (case bshape (shape a) (shape b) of
        None \<Rightarrow> Inl RuntimeError
      | Some s \<Rightarrow>
          Inr \<lparr>shape = s,
               elems = map (\<lambda>k. f (bc_get a s k) (bc_get b s k)) [0..<prod_list s]\<rparr>)"

text \<open>An in-place operation \<open>a += b\<close> keeps the shape of \<open>a\<close>.\<close>

definition tbin_inplace :: "(num \<Rightarrow> num \<Rightarrow> num) \<Rightarrow> tensor \<Rightarrow> tensor \<Rightarrow> exn + tensor" where
  "tbin_inplace f a b =
     ebind (tbin f a b) (\<lambda>r. if shape r = shape a then Inr r else Inl RuntimeError)"


section \<open>The KeOps notebook's score\<close>



section \<open>The derivative notebook's data cell\<close>

definition linspace :: "real \<Rightarrow> real \<Rightarrow> nat \<Rightarrow> tensor" where
  "linspace lo hi steps =
     \<lparr>shape = [steps],
      elems = map (\<lambda>i. Fin (lo + real i * ((hi - lo) / real (steps - 1)))) [0..<steps]\<rparr>"

text \<open>\<open>t.unsqueeze(-1)\<close>\<close>

definition unsqueeze_last :: "tensor \<Rightarrow> tensor" where
  "unsqueeze_last t = t\<lparr>shape := shape t @ [1]\<rparr>"

text \<open>\<open>t.squeeze(1)\<close>: dimension 1 is removed when its size is 1; a tensor with fewer
  than two dimensions has no dimension 1.\<close>

definition squeeze1 :: "tensor \<Rightarrow> exn + tensor" where
  "squeeze1 t =
     (if length (shape t) < 2 then Inl IndexError
      else if shape t ! 1 = 1 then Inr (t\<lparr>shape := hd (shape t) # drop 2 (shape t)\<rparr>)
      else Inr t)"

text \<open>\<open>torch.stack([a, b], -1)\<close>: the two tensors must have the same shape.\<close>

definition stack_last :: "tensor \<Rightarrow> tensor \<Rightarrow> exn + tensor" where
  "stack_last a b =
     (if shape a = shape b
      then Inr \<lparr>shape = shape a @ [2],
                elems = concat (map2 (\<lambda>x y. [x, y]) (elems a) (elems b))\<rparr>
      else Inl RuntimeError)"

fun fsin :: "num \<Rightarrow> num" where
  "fsin (Fin a) = Fin (sin a)"
| "fsin _ = NaN"

fun fcos :: "num \<Rightarrow> num" where
  "fcos (Fin a) = Fin (cos a)"
| "fcos _ = NaN"

text \<open>\<open>torch.randn(n, 2)\<close>: the samples are those of the generator, given as the
  sequence \<open>g\<close>.\<close>

definition randn2 :: "(nat \<Rightarrow> real) \<Rightarrow> nat \<Rightarrow> tensor" where
  "randn2 g n = \<lparr>shape = [n, 2], elems = map (\<lambda>k. Fin (g k)) [0..<n * 2]\<rparr>"

definition lb :: real where "lb = 0"
definition ub :: real where "ub = 5 * pi"
definition n_points :: nat where "n_points = 50"

definition deriv_data_cell :: "(nat \<Rightarrow> real) \<Rightarrow> exn + tensor \<times> tensor" where
  "deriv_data_cell g =
     (let tr_x = unsqueeze_last (linspace lb ub n_points)
      in ebind (tbin fadd (tmap fsin (tmap (fmul (Fin 2)) tr_x)) (tmap fcos tr_x)) (\<lambda>value.
         ebind (tbin fadd (tmap fneg (tmap fsin tr_x))
                          (tmap (fmul (Fin 2)) (tmap fcos (tmap (fmul (Fin 2)) tr_x)))) (\<lambda>deriv.
         ebind (stack_last value deriv) (\<lambda>stacked.
         ebind (squeeze1 stacked) (\<lambda>tr_y.
         ebind (tbin_inplace fadd tr_y (tmap (fmul (Fin 0.05)) (randn2 g n_points))) (\<lambda>tr_y.
           Inr (tr_x, tr_y)))))))"

section \<open>Model classes\<close>

text \<open>The modules of the external GP library are named, not implemented: a model is
  the structure its constructor builds.\<close>

datatype mean_module = ConstantMean | ConstantMeanGrad

datatype kernel = KeopsMaternKernel real | PolynomialKernelGrad nat | ScaleKernel kernel

datatype likelihood = GaussianLikelihood | MultitaskGaussianLikelihood nat

datatype ('m, 'c) distribution =
  MultivariateNormal 'm 'c | MultitaskMultivariateNormal 'm 'c

text \<open>An attribute that has not been assigned is \<open>None\<close>; reading it raises
  \<open>AttributeError\<close>.\<close>

record gp_model =
  model_train_inputs :: tensor
  model_train_targets :: tensor
  model_likelihood :: likelihood
  mean_module :: "mean_module option"
  base_kernel :: "kernel option"
  covar_module :: "kernel option"

definition attr :: "'a option \<Rightarrow> exn + 'a" where
  "attr a = (case a of None \<Rightarrow> Inl AttributeError | Some v \<Rightarrow> Inr v)"



definition ExactGPModel_forward ::
  "(mean_module \<Rightarrow> tensor \<Rightarrow> exn + 'm) \<Rightarrow> (kernel \<Rightarrow> tensor \<Rightarrow> exn + 'c) \<Rightarrow>
   gp_model \<Rightarrow> tensor \<Rightarrow> exn + ('m, 'c) distribution" where
  "ExactGPModel_forward apply_mean apply_kernel self x =
     ebind (attr (mean_module self)) (\<lambda>mean_mod.
     ebind (apply_mean mean_mod x) (\<lambda>mean_x.
     ebind (attr (covar_module self)) (\<lambda>covar_mod.
     ebind (apply_kernel covar_mod x) (\<lambda>covar_x.
       Inr (MultivariateNormal mean_x covar_x)))))"




section \<open>Running a notebook\<close>

text \<open>
  Everything a cell does outside its own values is a call of an external library. The
  libraries are a parameter: \<open>call_ext\<close> answers a call in a state \<open>'w\<close> of the
  libraries (model parameters, gradients, optimiser, devices, figures, clock) with a
  result or an exception and a new state. \<open>'d\<close> is the type of the distribution objects
  of the GP library.
\<close>

datatype 'd call =
    LoadMat string
  | UrlRetrieve string string
  | ToDevice tensor
  | NewLikelihood likelihood
  | NewModel gp_model
  | ModelTrain | LikTrain | ModelEval | LikEval
  | Adam | NewMll
  | Time
  | ZeroGrad
  | ModelCall tensor
  | MllCall 'd tensor
  | Backward num
  | ParamItem string
  | OptStep
  | NoGradEnter | NoGradExit
  | SettingEnter string | SettingExit string
  | LikCall 'd
  | DistMean 'd
  | ConfRegion 'd
  | Plot string

datatype 'd res =
  RUnit | RReal real | RNum num | RMat mat | RTensor tensor | RTensors tensor tensor | RDist 'd

datatype line = DownloadLine | IterLine nat nat num string num num | TimeLine real

text \<open>\<open>retrieve\<close> is \<open>urllib.request.urlretrieve\<close>: it returns the content it has
  fetched, or an exception and what it has written of the file before failing, if
  anything.\<close>

record ('w, 'd) lib =
  call_ext :: "'d call \<Rightarrow> 'w \<Rightarrow> (exn + 'd res) \<times> 'w"
  retrieve :: "string \<Rightarrow> 'w \<Rightarrow> (exn \<times> string option + string) \<times> 'w"

text \<open>The state of a run: the libraries, the files of the working directory, the
  printed lines, and the calls made so far with their outcomes (kept to state
  properties of a run, never read by a cell).\<close>

record ('w, 'd) nb_state =
  world :: 'w
  files :: "string \<rightharpoonup> string"
  stdout :: "line list"
  calls :: "('d call \<times> (exn + 'd res)) list"

text \<open>A cell is a program on that state; it ends with a value or with an exception.
  The cells of a notebook are run once, in the order of the notebook.\<close>

type_synonym ('w, 'd, 'a) prog = "('w, 'd) nb_state \<Rightarrow> (exn + 'a) \<times> ('w, 'd) nb_state"

definition nb_return :: "'a \<Rightarrow> ('w, 'd, 'a) prog" where
  "nb_return a s = (Inr a, s)"

definition nb_lift :: "exn + 'a \<Rightarrow> ('w, 'd, 'a) prog" where
  "nb_lift r s = (r, s)"

text \<open>An exception ends the cell: what follows is not run, and the state reached
  stays.\<close>

definition nb_bind :: "('w, 'd, 'a) prog \<Rightarrow> ('a \<Rightarrow> ('w, 'd, 'b) prog) \<Rightarrow> ('w, 'd, 'b) prog" where
  "nb_bind m f s = (case m s of (Inl e, s') \<Rightarrow> (Inl e, s') | (Inr a, s') \<Rightarrow> f a s')"

definition print_line :: "line \<Rightarrow> ('w, 'd, unit) prog" where
  "print_line l s = (Inr (), s\<lparr>stdout := stdout s @ [l]\<rparr>)"

definition ext :: "('w, 'd) lib \<Rightarrow> 'd call \<Rightarrow> ('w, 'd, 'd res) prog" where
  "ext L c s =
     (case call_ext L c (world s) of
        (r, w') \<Rightarrow> (r, s\<lparr>world := w', calls := calls s @ [(c, r)]\<rparr>))"

text \<open>A call whose result is not used, and calls whose result must have a type.\<close>

definition ext_unit :: "('w, 'd) lib \<Rightarrow> 'd call \<Rightarrow> ('w, 'd, unit) prog" where
  "ext_unit L c = nb_bind (ext L c) (\<lambda>_. nb_return ())"

definition ext_real :: "('w, 'd) lib \<Rightarrow> 'd call \<Rightarrow> ('w, 'd, real) prog" where
  "ext_real L c =
     nb_bind (ext L c) (\<lambda>r. case r of RReal x \<Rightarrow> nb_return x | _ \<Rightarrow> nb_lift (Inl TypeError))"

definition ext_num :: "('w, 'd) lib \<Rightarrow> 'd call \<Rightarrow> ('w, 'd, num) prog" where
  "ext_num L c =
     nb_bind (ext L c) (\<lambda>r. case r of RNum x \<Rightarrow> nb_return x | _ \<Rightarrow> nb_lift (Inl TypeError))"

definition ext_mat :: "('w, 'd) lib \<Rightarrow> 'd call \<Rightarrow> ('w, 'd, mat) prog" where
  "ext_mat L c =
     nb_bind (ext L c) (\<lambda>r. case r of RMat x \<Rightarrow> nb_return x | _ \<Rightarrow> nb_lift (Inl TypeError))"

definition ext_tensor :: "('w, 'd) lib \<Rightarrow> 'd call \<Rightarrow> ('w, 'd, tensor) prog" where
  "ext_tensor L c =
     nb_bind (ext L c) (\<lambda>r. case r of RTensor x \<Rightarrow> nb_return x | _ \<Rightarrow> nb_lift (Inl TypeError))"

definition ext_tensors :: "('w, 'd) lib \<Rightarrow> 'd call \<Rightarrow> ('w, 'd, tensor \<times> tensor) prog" where
  "ext_tensors L c =
     nb_bind (ext L c)
       (\<lambda>r. case r of RTensors x y \<Rightarrow> nb_return (x, y) | _ \<Rightarrow> nb_lift (Inl TypeError))"

definition ext_dist :: "('w, 'd) lib \<Rightarrow> 'd call \<Rightarrow> ('w, 'd, 'd) prog" where
  "ext_dist L c =
     nb_bind (ext L c) (\<lambda>r. case r of RDist x \<Rightarrow> nb_return x | _ \<Rightarrow> nb_lift (Inl TypeError))"

text \<open>\<open>with enter: body\<close>: the context is left when the body ends, also by an
  exception, which is raised again after that.\<close>

definition with_ctx ::
  "('w, 'd) lib \<Rightarrow> 'd call \<Rightarrow> 'd call \<Rightarrow> ('w, 'd, 'a) prog \<Rightarrow> ('w, 'd, 'a) prog" where
  "with_ctx L enter exit body s =
     (case ext L enter s of
        (Inl e, s1) \<Rightarrow> (Inl e, s1)
      | (Inr _, s1) \<Rightarrow>
         (case body s1 of
            (r, s2) \<Rightarrow>
              (case ext L exit s2 of
                 (Inl e, s3) \<Rightarrow> (Inl e, s3)
               | (Inr _, s3) \<Rightarrow> (r, s3))))"

text \<open>\<open>for i in range(n): body\<close>\<close>

fun for_each :: "nat list \<Rightarrow> (nat \<Rightarrow> ('w, 'd, unit) prog) \<Rightarrow> ('w, 'd, unit) prog" where
  "for_each [] body s = (Inr (), s)"
| "for_each (i # is) body s =
     (case body i s of (Inl e, s') \<Rightarrow> (Inl e, s') | (Inr _, s') \<Rightarrow> for_each is body s')"

definition for_range :: "nat \<Rightarrow> (nat \<Rightarrow> ('w, 'd, unit) prog) \<Rightarrow> ('w, 'd, unit) prog" where
  "for_range n body = for_each [0..<n] body"

text \<open>Statements that are calls whose results are not used, one after the other.\<close>

fun do_all :: "('w, 'd) lib \<Rightarrow> 'd call list \<Rightarrow> ('w, 'd, unit) prog" where
  "do_all L [] s = (Inr (), s)"
| "do_all L (c # cs) s =
     (case ext_unit L c s of (Inl e, s') \<Rightarrow> (Inl e, s') | (Inr _, s') \<Rightarrow> do_all L cs s')"

section \<open>The cells of the KeOps notebook\<close>



text \<open>\<open>os.path.isfile\<close>\<close>

definition isfile :: "string \<Rightarrow> ('w, 'd, bool) prog" where
  "isfile name s = (Inr (files s name \<noteq> None), s)"






definition training_iter :: nat where
  "training_iter = 50"

definition keops_iteration ::
  "('w, 'd) lib \<Rightarrow> tensor \<Rightarrow> tensor \<Rightarrow> nat \<Rightarrow> nat \<Rightarrow> ('w, 'd, unit) prog" where
  "keops_iteration L tr_x tr_y n_total i =
     nb_bind (ext_real L Time) (\<lambda>start_time.
     nb_bind (ext_unit L ZeroGrad) (\<lambda>_.
     nb_bind (ext_dist L (ModelCall tr_x)) (\<lambda>output.
     nb_bind (ext_num L (MllCall output tr_y)) (\<lambda>m.
       let loss = fneg m in
     nb_bind (ext_unit L (Backward loss)) (\<lambda>_.
     nb_bind (ext_num L (ParamItem ''model.covar_module.base_kernel.lengthscale'')) (\<lambda>ls.
     nb_bind (ext_num L (ParamItem ''model.likelihood.noise'')) (\<lambda>noise.
     nb_bind (print_line (IterLine (i + 1) n_total loss ''lengthscale'' ls noise)) (\<lambda>_.
     nb_bind (ext_unit L OptStep) (\<lambda>_.
     nb_bind (ext_real L Time) (\<lambda>t.
     print_line (TimeLine (t - start_time))))))))))))"

definition keops_train_cell :: "('w, 'd) lib \<Rightarrow> tensor \<Rightarrow> tensor \<Rightarrow> ('w, 'd, unit) prog" where
  "keops_train_cell L tr_x tr_y =
     nb_bind (ext_unit L ModelTrain) (\<lambda>_.
     nb_bind (ext_unit L LikTrain) (\<lambda>_.
     nb_bind (ext_unit L Adam) (\<lambda>_.
     nb_bind (ext_unit L NewMll) (\<lambda>_.
     for_range training_iter (keops_iteration L tr_x tr_y training_iter)))))"

definition keops_predict_cell :: "('w, 'd) lib \<Rightarrow> tensor \<Rightarrow> ('w, 'd, 'd) prog" where
  "keops_predict_cell L te_x =
     nb_bind (ext_unit L ModelEval) (\<lambda>_.
     nb_bind (ext_unit L LikEval) (\<lambda>_.
     with_ctx L NoGradEnter NoGradExit
       (with_ctx L (SettingEnter ''fast_pred_var'') (SettingExit ''fast_pred_var'')
          (nb_bind (ext_dist L (ModelCall te_x)) (\<lambda>f. ext_dist L (LikCall f))))))"



section \<open>The cells of the derivative notebook\<close>


definition n_iter :: nat where
  "n_iter = 50"

definition deriv_iteration ::
  "('w, 'd) lib \<Rightarrow> tensor \<Rightarrow> tensor \<Rightarrow> nat \<Rightarrow> nat \<Rightarrow> ('w, 'd, unit) prog" where
  "deriv_iteration L tr_x tr_y n_total i =
     nb_bind (ext_unit L ZeroGrad) (\<lambda>_.
     nb_bind (ext_dist L (ModelCall tr_x)) (\<lambda>output.
     nb_bind (ext_num L (MllCall output tr_y)) (\<lambda>m.
       let loss = fneg m in
     nb_bind (ext_unit L (Backward loss)) (\<lambda>_.
     nb_bind (ext_num L (ParamItem ''model.covar_module.base_kernel.offset'')) (\<lambda>offset.
     nb_bind (ext_num L (ParamItem ''model.likelihood.noise'')) (\<lambda>noise.
     nb_bind (print_line (IterLine (i + 1) n_total loss ''offset'' offset noise)) (\<lambda>_.
     ext_unit L OptStep)))))))"

definition deriv_train_cell :: "('w, 'd) lib \<Rightarrow> tensor \<Rightarrow> tensor \<Rightarrow> ('w, 'd, unit) prog" where
  "deriv_train_cell L tr_x tr_y =
     nb_bind (ext_unit L ModelTrain) (\<lambda>_.
     nb_bind (ext_unit L LikTrain) (\<lambda>_.
     nb_bind (ext_unit L Adam) (\<lambda>_.
     nb_bind (ext_unit L NewMll) (\<lambda>_.
     for_range n_iter (deriv_iteration L tr_x tr_y n_iter)))))"

definition deriv_plots :: "'d call list" where
  "deriv_plots =
     [Plot ''y1_ax.plot'', Plot ''y1_ax.plot'', Plot ''y1_ax.fill_between'',
      Plot ''y1_ax.legend'', Plot ''y1_ax.set_title'',
      Plot ''y2_ax.plot'', Plot ''y2_ax.plot'', Plot ''y2_ax.fill_between'',
      Plot ''y2_ax.legend'', Plot ''y2_ax.set_title'']"

definition deriv_predict_cell :: "('w, 'd) lib \<Rightarrow> ('w, 'd, unit) prog" where
  "deriv_predict_cell L =
     nb_bind (ext_unit L ModelTrain) (\<lambda>_.
     nb_bind (ext_unit L ModelEval) (\<lambda>_.
     nb_bind (ext_unit L LikEval) (\<lambda>_.
     nb_bind (ext_unit L (Plot ''plt.subplots'')) (\<lambda>_.
     nb_bind (with_ctx L NoGradEnter NoGradExit
               (with_ctx L (SettingEnter ''max_cg_iterations(50)'')
                           (SettingExit ''max_cg_iterations(50)'')
                  (let te_x = linspace lb ub 500 in
                   nb_bind (ext_dist L (ModelCall te_x)) (\<lambda>f.
                   nb_bind (ext_dist L (LikCall f)) (\<lambda>predictions.
                   nb_bind (ext_tensor L (DistMean predictions)) (\<lambda>mean.
                   nb_bind (ext_tensors L (ConfRegion predictions)) (\<lambda>lower_upper.
                   nb_return ()))))))) (\<lambda>_.
     do_all L deriv_plots)))))"


section \<open>Reading a run\<close>

text \<open>What a list of calls says: the losses on which \<open>backward\<close> was called, and the
  numbers and the times that a given call returned, each in the order of the calls.\<close>

definition backward_losses :: "('d call \<times> (exn + 'd res)) list \<Rightarrow> num list" where
  "backward_losses evs =
     concat (map (\<lambda>ev. case fst ev of Backward l \<Rightarrow> [l] | _ \<Rightarrow> []) evs)"

definition num_results :: "'d call \<Rightarrow> ('d call \<times> (exn + 'd res)) list \<Rightarrow> num list" where
  "num_results c evs =
     concat (map (\<lambda>ev. if fst ev = c
                        then (case snd ev of Inr (RNum x) \<Rightarrow> [x] | _ \<Rightarrow> [])
                        else []) evs)"

definition real_results :: "'d call \<Rightarrow> ('d call \<times> (exn + 'd res)) list \<Rightarrow> real list" where
  "real_results c evs =
     concat (map (\<lambda>ev. if fst ev = c
                        then (case snd ev of Inr (RReal x) \<Rightarrow> [x] | _ \<Rightarrow> [])
                        else []) evs)"

text \<open>The calls and the lines that a cell has added to a state.\<close>

definition new_calls ::
  "('w, 'd) nb_state \<Rightarrow> ('w, 'd) nb_state \<Rightarrow> ('d call \<times> (exn + 'd res)) list" where
  "new_calls s s' = drop (length (calls s)) (calls s')"

definition new_lines :: "('w, 'd) nb_state \<Rightarrow> ('w, 'd) nb_state \<Rightarrow> line list" where
  "new_lines s s' = drop (length (stdout s)) (stdout s')"

definition keops_block :: "('d call \<times> (exn + 'd res)) list \<Rightarrow> bool" where
  "keops_block b \<longleftrightarrow>
     length (backward_losses b) = 1
     \<and> length (num_results (ParamItem ''model.covar_module.base_kernel.lengthscale'') b) = 1
     \<and> length (num_results (ParamItem ''model.likelihood.noise'') b) = 1
     \<and> length (real_results Time b) = 2"

definition keops_lines :: "nat \<Rightarrow> nat \<Rightarrow> ('d call \<times> (exn + 'd res)) list \<Rightarrow> line list" where
  "keops_lines n i b =
     [IterLine (i + 1) n (hd (backward_losses b)) ''lengthscale''
        (hd (num_results (ParamItem ''model.covar_module.base_kernel.lengthscale'') b))
        (hd (num_results (ParamItem ''model.likelihood.noise'') b)),
      TimeLine (real_results Time b ! 1 - real_results Time b ! 0)]"

definition deriv_block :: "('d call \<times> (exn + 'd res)) list \<Rightarrow> bool" where
  "deriv_block b \<longleftrightarrow>
     length (backward_losses b) = 1
     \<and> length (num_results (ParamItem ''model.covar_module.base_kernel.offset'') b) = 1
     \<and> length (num_results (ParamItem ''model.likelihood.noise'') b) = 1"

definition deriv_lines :: "nat \<Rightarrow> nat \<Rightarrow> ('d call \<times> (exn + 'd res)) list \<Rightarrow> line list" where
  "deriv_lines n i b =
     [IterLine (i + 1) n (hd (backward_losses b)) ''offset''
        (hd (num_results (ParamItem ''model.covar_module.base_kernel.offset'') b))
        (hd (num_results (ParamItem ''model.likelihood.noise'') b))]"

text \<open>A check of a list of calls, from left to right: every call of \<open>backward\<close> comes
  right after a call of the marginal log-likelihood on the training targets, which
  comes right after a call of the model on the training inputs, and its argument is the
  negated result of the former on the result of the latter. \<open>p2\<close> and \<open>p1\<close> are the
  two calls before the list.\<close>

fun backward_scan ::
  "tensor \<Rightarrow> tensor \<Rightarrow> ('d call \<times> (exn + 'd res)) option \<Rightarrow>
   ('d call \<times> (exn + 'd res)) option \<Rightarrow> ('d call \<times> (exn + 'd res)) list \<Rightarrow> bool" where
  "backward_scan tr_x tr_y p2 p1 [] = True"
| "backward_scan tr_x tr_y p2 p1 (ev # evs) =
     ((case fst ev of
         Backward l \<Rightarrow>
           (\<exists>d m. p2 = Some (ModelCall tr_x, Inr (RDist d))
                  \<and> p1 = Some (MllCall d tr_y, Inr (RNum m)) \<and> l = fneg m)
       | _ \<Rightarrow> True)
      \<and> backward_scan tr_x tr_y p1 (Some ev) evs)"

text \<open>The calls that switch the mode of the model or of the likelihood, the calls that
  enter or leave the no-gradient context, and the calls that compute the prediction
  \<open>likelihood(model(x))\<close>.\<close>

fun is_model_mode :: "'d call \<Rightarrow> bool" where
  "is_model_mode ModelTrain = True"
| "is_model_mode ModelEval = True"
| "is_model_mode _ = False"

fun is_lik_mode :: "'d call \<Rightarrow> bool" where
  "is_lik_mode LikTrain = True"
| "is_lik_mode LikEval = True"
| "is_lik_mode _ = False"

definition is_mode :: "'d call \<Rightarrow> bool" where
  "is_mode c \<longleftrightarrow> is_model_mode c \<or> is_lik_mode c"

fun is_grad_ctx :: "'d call \<Rightarrow> bool" where
  "is_grad_ctx NoGradEnter = True"
| "is_grad_ctx NoGradExit = True"
| "is_grad_ctx _ = False"

fun is_predict :: "'d call \<Rightarrow> bool" where
  "is_predict (ModelCall x) = True"
| "is_predict (LikCall f) = True"
| "is_predict _ = False"

text \<open>The most recent call of a kind in a list of calls.\<close>

definition last_call ::
  "('d call \<Rightarrow> bool) \<Rightarrow> ('d call \<times> (exn + 'd res)) list \<Rightarrow> 'd call option" where
  "last_call P evs =
     (let cs = filter P (map fst evs) in if cs = [] then None else Some (last cs))"

text \<open>A check of a list of calls, from left to right, given the most recent calls of
  each kind before the list: at every prediction call the most recent mode call on the
  model is \<open>eval\<close>, so is the one on the likelihood, the most recent mode call of all
  is the \<open>eval\<close> of the likelihood, and the no-gradient context has been entered and
  not left.\<close>

fun predict_scan ::
  "'d call option \<Rightarrow> 'd call option \<Rightarrow> 'd call option \<Rightarrow> 'd call option \<Rightarrow>
   ('d call \<times> (exn + 'd res)) list \<Rightarrow> bool" where
  "predict_scan a b c g [] = True"
| "predict_scan a b c g (ev # evs) =
     ((is_predict (fst ev) \<longrightarrow>
         a = Some ModelEval \<and> b = Some LikEval \<and> c = Some LikEval \<and> g = Some NoGradEnter)
      \<and> predict_scan (if is_model_mode (fst ev) then Some (fst ev) else a)
                      (if is_lik_mode (fst ev) then Some (fst ev) else b)
                      (if is_mode (fst ev) then Some (fst ev) else c)
                      (if is_grad_ctx (fst ev) then Some (fst ev) else g) evs)"

text \<open>Exceptions in a list of calls: the exceptions raised, in order; the last of them;
  and the check that a call that raised is followed by nothing but the calls that leave
  a context.\<close>

fun is_exit :: "'d call \<Rightarrow> bool" where
  "is_exit NoGradExit = True"
| "is_exit (SettingExit n) = True"
| "is_exit _ = False"

definition raised :: "('d call \<times> (exn + 'd res)) list \<Rightarrow> exn list" where
  "raised evs = concat (map (\<lambda>ev. case snd ev of Inl e \<Rightarrow> [e] | Inr v \<Rightarrow> []) evs)"

definition last_raised :: "('d call \<times> (exn + 'd res)) list \<Rightarrow> exn option" where
  "last_raised evs = (if raised evs = [] then None else Some (last (raised evs)))"

fun only_exits_after_raise :: "('d call \<times> (exn + 'd res)) list \<Rightarrow> bool" where
  "only_exits_after_raise [] = True"
| "only_exits_after_raise (ev # evs) =
     ((case snd ev of Inl e \<Rightarrow> list_all (\<lambda>x. is_exit (fst x)) evs | Inr v \<Rightarrow> True)
      \<and> only_exits_after_raise evs)"

text \<open>The exception a cell ends with, if it does.\<close>

definition exn_of :: "exn + 'a \<Rightarrow> exn option" where
  "exn_of r = (case r of Inl e \<Rightarrow> Some e | Inr a \<Rightarrow> None)"

text \<open>Exceptions pass through: when a call has raised, nothing but context exits is
  called after it, and the cell ends with the exception raised last (the one of the
  call itself, unless leaving a context raised another).\<close>

definition propagates :: "('d call \<times> (exn + 'd res)) list \<Rightarrow> exn option \<Rightarrow> bool" where
  "propagates new x \<longleftrightarrow>
     only_exits_after_raise new
     \<and> (case last_raised new of None \<Rightarrow> True | Some e \<Rightarrow> x = Some e)"

text \<open>A program is regular for a set of file names when it only adds to the calls,
  passes exceptions through, and leaves every file outside the set as it is.\<close>

definition regular :: "string set \<Rightarrow> ('w, 'd, 'a) prog \<Rightarrow> bool" where
  "regular F p \<longleftrightarrow>
     (\<forall>s r s'. p s = (r, s') \<longrightarrow>
        (\<exists>new. calls s' = calls s @ new \<and> propagates new (exn_of r))
        \<and> (\<forall>n. n \<notin> F \<longrightarrow> files s' n = files s n))"


section \<open>Libraries that do not fail\<close>

text \<open>The kind of result each call returns when it does not raise.\<close>

fun result_ok :: "'d call \<Rightarrow> 'd res \<Rightarrow> bool" where
  "result_ok Time r = (case r of RReal x \<Rightarrow> True | _ \<Rightarrow> False)"
| "result_ok (ModelCall x) r = (case r of RDist d \<Rightarrow> True | _ \<Rightarrow> False)"
| "result_ok (LikCall f) r = (case r of RDist d \<Rightarrow> True | _ \<Rightarrow> False)"
| "result_ok (MllCall d y) r = (case r of RNum x \<Rightarrow> True | _ \<Rightarrow> False)"
| "result_ok (ParamItem n) r = (case r of RNum x \<Rightarrow> True | _ \<Rightarrow> False)"
| "result_ok (LoadMat c) r = (case r of RMat A \<Rightarrow> True | _ \<Rightarrow> False)"
| "result_ok (DistMean d) r = (case r of RTensor t \<Rightarrow> True | _ \<Rightarrow> False)"
| "result_ok (ConfRegion d) r = (case r of RTensors l u \<Rightarrow> True | _ \<Rightarrow> False)"
| "result_ok _ r = True"

definition never_fails :: "('w, 'd) lib \<Rightarrow> bool" where
  "never_fails L \<longleftrightarrow>
     (\<forall>c w. case fst (call_ext L c w) of Inl e \<Rightarrow> False | Inr r \<Rightarrow> result_ok c r)
     \<and> (\<forall>url w. case fst (retrieve L url w) of Inl e \<Rightarrow> False | Inr c \<Rightarrow> True)"

text \<open>A program that ends without an exception from every state.\<close>

definition succeeds :: "('w, 'd, 'a) prog \<Rightarrow> bool" where
  "succeeds p \<longleftrightarrow> (\<forall>s. \<exists>a s'. p s = (Inr a, s'))"

section \<open>An example library\<close>

text \<open>A library in which no call fails: its state is a counter, the clock shows the
  counter, a model call returns the counter as the distribution, and the marginal
  log-likelihood of a distribution is its number.\<close>

definition example_lib :: "(nat, nat) lib" where
  "example_lib =
     \<lparr>call_ext = (\<lambda>c w. case c of
          Time \<Rightarrow> (Inr (RReal (real w)), Suc w)
        | ModelCall x \<Rightarrow> (Inr (RDist w), Suc w)
        | MllCall d y \<Rightarrow> (Inr (RNum (Fin (real d))), Suc w)
        | ParamItem n \<Rightarrow> (Inr (RNum (Fin 1)), w)
        | LoadMat c \<Rightarrow> (Inr (RMat example_data), w)
        | LikCall d \<Rightarrow> (Inr (RDist d), Suc w)
        | DistMean d \<Rightarrow> (Inr (RTensor (of_vec [Fin 49])), w)
        | ConfRegion d \<Rightarrow> (Inr (RTensors (of_vec [Fin 48]) (of_vec [Fin 50])), w)
        | _ \<Rightarrow> (Inr RUnit, Suc w)),
      retrieve = (\<lambda>url w. (Inr ''data'', Suc w))\<rparr>"

definition empty_state :: "(nat, nat) nb_state" where
  "empty_state = \<lparr>world = 0, files = Map.empty, stdout = [], calls = []\<rparr>"


section \<open>Properties of the KeOps notebook's data cell\<close>

lemma n_train_of_div: "n_train_of N = (4 * N) div 5"
proof -
  have "\<lfloor>0.8 * real N\<rfloor> = \<lfloor>real (4 * N) / real 5\<rfloor>" by simp
  also have "\<dots> = int ((4 * N) div 5)" by (simp only: floor_divide_of_nat_eq)
  finally show ?thesis by (simp add: n_train_of_def py_int_def)
qed

lemma n_train_of_floor: "int (n_train_of N) = \<lfloor>0.8 * real N\<rfloor>"
  by (simp add: n_train_of_def py_int_def)

lemma n_train_le: "n_train_of N \<le> N"
  by (simp add: n_train_of_div)


lemma split_cell_ok:
  assumes "0 < ncols data"
  shows "split_cell data =
     Inr \<lparr>train_x = \<lparr>ncols = ncols data - 1, rows = map butlast (take (n_train_of (nrows data)) (rows data))\<rparr>,
          train_y = map last (take (n_train_of (nrows data)) (rows data)),
          test_x = \<lparr>ncols = ncols data - 1, rows = map butlast (drop (n_train_of (nrows data)) (rows data))\<rparr>,
          test_y = map last (drop (n_train_of (nrows data)) (rows data))\<rparr>"
  using assms
  by (simp add: split_cell_def col_last_def rows_to_def rows_from_def cols_but_last_def Let_def)







lemma bcast_row:
  assumes wf: "wf_mat A" and nc: "ncols M = ncols A" and rM: "rows M = [b]" and lb: "length b = ncols A"
  shows "bcast f A M = Inr \<lparr>ncols = ncols A, rows = map (\<lambda>r. map2 f r b) (rows A)\<rparr>"
proof -
  have n1: "nrows M = 1" using rM by (simp add: nrows_def)
  have bd: "bdim (nrows A) (nrows M) = Some (nrows A)" using n1 by (simp add: bdim_def)
  have bc: "bdim (ncols A) (ncols M) = Some (ncols A)" using nc by (simp add: bdim_def)
  have rowlen: "\<And>i. i < nrows A \<Longrightarrow> length (rows A ! i) = ncols A"
    using wf by (simp add: wf_mat_def nrows_def list_all_length)
  have "map (\<lambda>i. map (\<lambda>j. f (bget A i j) (bget M i j)) [0..<ncols A]) [0..<nrows A]
        = map (\<lambda>r. map2 f r b) (rows A)"
  proof (rule nth_equalityI)
    show "length (map (\<lambda>i. map (\<lambda>j. f (bget A i j) (bget M i j)) [0..<ncols A]) [0..<nrows A])
          = length (map (\<lambda>r. map2 f r b) (rows A))"
      by (simp add: nrows_def)
  next
    fix i assume "i < length (map (\<lambda>i. map (\<lambda>j. f (bget A i j) (bget M i j)) [0..<ncols A]) [0..<nrows A])"
    then have i: "i < nrows A" by simp
    have "map (\<lambda>j. f (bget A i j) (bget M i j)) [0..<ncols A] = map2 f (rows A ! i) b"
    proof (rule nth_equalityI)
      show "length (map (\<lambda>j. f (bget A i j) (bget M i j)) [0..<ncols A]) = length (map2 f (rows A ! i) b)"
        using rowlen[OF i] lb by simp
    next
      fix j assume "j < length (map (\<lambda>j. f (bget A i j) (bget M i j)) [0..<ncols A])"
      then have j: "j < ncols A" by simp
      have a: "bget A i j = rows A ! i ! j"
        using i j by (auto simp: bget_def)
      have m: "bget M i j = b ! j"
        using j n1 nc rM by (auto simp: bget_def)
      show "map (\<lambda>j. f (bget A i j) (bget M i j)) [0..<ncols A] ! j = map2 f (rows A ! i) b ! j"
        using j rowlen[OF i] lb a m by simp
    qed
    then show "map (\<lambda>i. map (\<lambda>j. f (bget A i j) (bget M i j)) [0..<ncols A]) [0..<nrows A] ! i
          = map (\<lambda>r. map2 f r b) (rows A) ! i"
      using i by (simp add: nrows_def)
  qed
  then show ?thesis by (simp add: bcast_def bd bc)
qed



lemma join_butlast_last:
  assumes "list_all (\<lambda>r. r \<noteq> []) rs"
  shows "map2 (\<lambda>r v. r @ [v]) (map butlast rs) (map last rs) = rs"
  using assms by (induction rs) simp_all

lemma wf_rows_nonempty:
  assumes "wf_mat A" "0 < ncols A"
  shows "list_all (\<lambda>r. r \<noteq> []) (rows A)"
  using assms by (auto simp: wf_mat_def list_all_iff)

lemma list_all_take: "list_all P xs \<Longrightarrow> list_all P (take n xs)"
  by (auto simp: list_all_iff dest: in_set_takeD)

lemma list_all_drop: "list_all P xs \<Longrightarrow> list_all P (drop n xs)"
  by (auto simp: list_all_iff dest: in_set_dropD)

text \<open>
  Claim C3. The data cell of the KeOps notebook splits the \<open>N\<close> rows of the data matrix
  into the first \<open>floor (0.8 * N)\<close> rows (training) and the remaining rows (test): the
  two parts concatenated are the data matrix, so a row index lies in exactly one part, and
  in each part the last column of a row is its target and the columns before it are its
  features.
\<close>

theorem split_cell_partition:
  assumes wf: "wf_mat data" and nc: "0 < ncols data"
  shows "\<exists>ds. split_cell data = Inr ds
     \<and> int (nrows (train_x ds)) = \<lfloor>0.8 * real (nrows data)\<rfloor>
     \<and> join_xy (train_x ds) (train_y ds) = take (nrows (train_x ds)) (rows data)
     \<and> join_xy (test_x ds) (test_y ds) = drop (nrows (train_x ds)) (rows data)
     \<and> join_xy (train_x ds) (train_y ds) @ join_xy (test_x ds) (test_y ds) = rows data
     \<and> (\<forall>i < nrows data.
           if i < nrows (train_x ds)
           then rows data ! i = join_xy (train_x ds) (train_y ds) ! i
           else rows data ! i = join_xy (test_x ds) (test_y ds) ! (i - nrows (train_x ds)))"
proof -
  let ?n = "n_train_of (nrows data)"
  let ?ds = "\<lparr>train_x = \<lparr>ncols = ncols data - 1, rows = map butlast (take ?n (rows data))\<rparr>,
          train_y = map last (take ?n (rows data)),
          test_x = \<lparr>ncols = ncols data - 1, rows = map butlast (drop ?n (rows data))\<rparr>,
          test_y = map last (drop ?n (rows data))\<rparr>"
  have ne: "list_all (\<lambda>r. r \<noteq> []) (rows data)" by (rule wf_rows_nonempty[OF wf nc])
  have le: "?n \<le> length (rows data)" using n_train_le[of "nrows data"] by (simp add: nrows_def)
  have n: "nrows (train_x ?ds) = ?n" using le by (simp add: nrows_def)
  have tr: "join_xy (train_x ?ds) (train_y ?ds) = take ?n (rows data)"
    by (simp add: join_xy_def join_butlast_last[OF list_all_take[OF ne]])
  have te: "join_xy (test_x ?ds) (test_y ?ds) = drop ?n (rows data)"
    by (simp add: join_xy_def join_butlast_last[OF list_all_drop[OF ne]])
  have ix: "\<forall>i < nrows data.
           if i < ?n then rows data ! i = take ?n (rows data) ! i
           else rows data ! i = drop ?n (rows data) ! (i - ?n)"
    using le by (simp add: nrows_def)
  have c1: "split_cell data = Inr ?ds" by (rule split_cell_ok[OF nc])
  have c2: "int (nrows (train_x ?ds)) = \<lfloor>0.8 * real (nrows data)\<rfloor>"
    unfolding n by (rule n_train_of_floor)
  have c3: "join_xy (train_x ?ds) (train_y ?ds) = take (nrows (train_x ?ds)) (rows data)"
    unfolding n by (rule tr)
  have c4: "join_xy (test_x ?ds) (test_y ?ds) = drop (nrows (train_x ?ds)) (rows data)"
    unfolding n by (rule te)
  have c5: "join_xy (train_x ?ds) (train_y ?ds) @ join_xy (test_x ?ds) (test_y ?ds) = rows data"
    unfolding tr te by simp
  have c6: "\<forall>i < nrows data.
           if i < nrows (train_x ?ds)
           then rows data ! i = join_xy (train_x ?ds) (train_y ?ds) ! i
           else rows data ! i = join_xy (test_x ?ds) (test_y ?ds) ! (i - nrows (train_x ?ds))"
    unfolding n tr te by (rule ix)
  from c1 c2 c3 c4 c5 c6 show ?thesis by blast
qed

theorem split_cell_partition_witness:
  "wf_mat example_data \<and> 0 < ncols example_data
   \<and> (\<exists>ds. split_cell example_data = Inr ds \<and> nrows (train_x ds) = 4
          \<and> join_xy (train_x ds) (train_y ds) @ join_xy (test_x ds) (test_y ds)
              = rows example_data)"
proof -
  have h1: "wf_mat example_data" by (simp add: wf_mat_def example_data_def)
  have h2: "0 < ncols example_data" by (simp add: example_data_def)
  from split_cell_partition [OF h1 h2] obtain ds where
    s: "split_cell example_data = Inr ds"
    and n: "int (nrows (train_x ds)) = \<lfloor>0.8 * real (nrows example_data)\<rfloor>"
    and j: "join_xy (train_x ds) (train_y ds) @ join_xy (test_x ds) (test_y ds)
              = rows example_data"
    by blast
  have "nrows example_data = 5" by (simp add: nrows_def example_data_def)
  with n have "int (nrows (train_x ds)) = 4" by simp
  then have "nrows (train_x ds) = 4" by linarith
  with h1 h2 s j show ?thesis by blast
qed

lemma feature_mean_simps:
  "ncols (feature_mean A) = ncols A"
  "rows (feature_mean A) = [map (\<lambda>j. fmean (col A j)) [0..<ncols A]]"
  by (simp_all add: feature_mean_def mean_dim0_def)

lemma feature_divisor_simps:
  "ncols (feature_divisor A) = ncols A"
  "rows (feature_divisor A) = [map (\<lambda>j. fadd (fstd (col A j)) (Fin 0.000001)) [0..<ncols A]]"
  by (simp_all add: feature_divisor_def std_dim0_def add_scalar_def)

lemma wf_map2_rows:
  assumes "wf_mat A" "length b = ncols A"
  shows "wf_mat \<lparr>ncols = ncols A, rows = map (\<lambda>r. map2 f r b) (rows A)\<rparr>"
  using assms by (simp add: wf_mat_def list_all_iff)

lemma normalize_features_eq:
  assumes wf: "wf_mat X" and nc: "ncols X = ncols T"
  shows "normalize_features (feature_mean T) (feature_divisor T) X =
     Inr \<lparr>ncols = ncols X,
          rows = map (\<lambda>r. map2 fdiv (map2 fsub r (hd (rows (feature_mean T))))
                                     (hd (rows (feature_divisor T)))) (rows X)\<rparr>"
proof -
  let ?m = "hd (rows (feature_mean T))" and ?d = "hd (rows (feature_divisor T))"
  have lm: "length ?m = ncols X" and ld: "length ?d = ncols X"
    by (simp_all add: feature_mean_simps feature_divisor_simps nc)
  have s1: "bcast fsub X (feature_mean T) = Inr \<lparr>ncols = ncols X, rows = map (\<lambda>r. map2 fsub r ?m) (rows X)\<rparr>"
    by (rule bcast_row[OF wf]) (simp_all add: feature_mean_simps nc)
  have wf1: "wf_mat \<lparr>ncols = ncols X, rows = map (\<lambda>r. map2 fsub r ?m) (rows X)\<rparr>"
    by (rule wf_map2_rows[OF wf lm])
  have s2: "bcast fdiv \<lparr>ncols = ncols X, rows = map (\<lambda>r. map2 fsub r ?m) (rows X)\<rparr> (feature_divisor T)
     = Inr \<lparr>ncols = ncols X, rows = map (\<lambda>r. map2 fdiv r ?d) (map (\<lambda>r. map2 fsub r ?m) (rows X))\<rparr>"
    using bcast_row[OF wf1, of "feature_divisor T" ?d fdiv]
    by (simp add: feature_divisor_simps nc)
  show ?thesis
    by (simp add: normalize_features_def ebind_def s1 s2 comp_def)
qed







lemma normalize_cell_eq:
  assumes wtr: "wf_mat (train_x ds)" and wte: "wf_mat (test_x ds)"
    and nc: "ncols (test_x ds) = ncols (train_x ds)"
  shows "normalize_cell ds =
     Inr \<lparr>train_x = \<lparr>ncols = ncols (train_x ds),
             rows = map (\<lambda>r. map2 fdiv (map2 fsub r (hd (rows (feature_mean (train_x ds)))))
                                     (hd (rows (feature_divisor (train_x ds))))) (rows (train_x ds))\<rparr>,
          train_y = normalize_labels (fmean (train_y ds)) (fstd (train_y ds)) (train_y ds),
          test_x = \<lparr>ncols = ncols (test_x ds),
             rows = map (\<lambda>r. map2 fdiv (map2 fsub r (hd (rows (feature_mean (train_x ds)))))
                                     (hd (rows (feature_divisor (train_x ds))))) (rows (test_x ds))\<rparr>,
          test_y = normalize_labels (fmean (train_y ds)) (fstd (train_y ds)) (test_y ds)\<rparr>"
  unfolding normalize_cell_def Let_def
    normalize_features_eq[OF wtr refl] normalize_features_eq[OF wte nc]
  by (simp add: ebind_def)







lemma bcast_nrows:
  assumes "bcast f A B = Inr C" "nrows B = 1"
  shows "nrows C = nrows A"
  using assms
  by (auto simp: bcast_def bdim_def nrows_def split: option.splits if_splits)

lemma normalize_features_nrows:
  assumes "normalize_features m s x = Inr y" "nrows m = 1" "nrows s = 1"
  shows "nrows y = nrows x"
proof -
  from assms(1) obtain d where d: "bcast fsub x m = Inr d" and y: "bcast fdiv d s = Inr y"
    by (auto simp: normalize_features_def ebind_def split: sum.splits)
  from bcast_nrows[OF y assms(3)] bcast_nrows[OF d assms(2)] show ?thesis by simp
qed

lemma split_cell_rows:
  assumes "split_cell data = Inr ds"
  shows "nrows (train_x ds) = length (train_y ds)"
    and "length (train_y ds) = min (nrows data) (n_train_of (nrows data))"
  using assms
  by (auto simp: split_cell_def Let_def col_last_def rows_to_def rows_from_def
        cols_but_last_def nrows_def split: sum.splits if_splits)

lemma normalize_cell_rows:
  assumes "normalize_cell ds = Inr out"
  shows "nrows (train_x out) = nrows (train_x ds)" and "length (train_y out) = length (train_y ds)"
proof -
  let ?m = "feature_mean (train_x ds)" and ?s = "feature_divisor (train_x ds)"
  have m1: "nrows ?m = 1" and s1: "nrows ?s = 1"
    by (simp_all add: nrows_def feature_mean_simps feature_divisor_simps)
  from assms obtain a b where a: "normalize_features ?m ?s (train_x ds) = Inr a"
    and out: "out = \<lparr>train_x = a,
        train_y = normalize_labels (fmean (train_y ds)) (fstd (train_y ds)) (train_y ds),
        test_x = b,
        test_y = normalize_labels (fmean (train_y ds)) (fstd (train_y ds)) (test_y ds)\<rparr>"
    by (auto simp: normalize_cell_def Let_def ebind_def split: sum.splits)
  from normalize_features_nrows[OF a m1 s1] out
  show "nrows (train_x out) = nrows (train_x ds)" by simp
  from out show "length (train_y out) = length (train_y ds)"
    by (simp add: normalize_labels_def)
qed

lemma data_cell_rows:
  assumes "data_cell data = Inr out"
  shows "nrows (train_x out) = length (train_y out)"
proof -
  from assms obtain ds where s: "split_cell data = Inr ds" and n: "normalize_cell ds = Inr out"
    by (auto simp: data_cell_def ebind_def split: sum.splits)
  from split_cell_rows(1)[OF s] normalize_cell_rows[OF n] show ?thesis by simp
qed

lemma bdim_same: "bdim a a = Some a"
  by (simp add: bdim_def)

lemma bshape_rev_same: "bshape_rev xs xs = Some xs"
  by (induction xs) (simp_all add: bdim_same)

lemma bshape_same: "bshape s s = Some s"
  by (simp add: bshape_def bshape_rev_same)

lemma tbin_same_shape:
  assumes "shape a = shape b"
  shows "\<exists>r. tbin f a b = Inr r \<and> shape r = shape a \<and> wf_tensor r"
  using assms by (simp add: tbin_def bshape_same wf_tensor_def)

lemma tmap_shape: "shape (tmap f t) = shape t"
  by (simp add: tmap_def)

lemma tmap_wf: "wf_tensor (tmap f t) = wf_tensor t"
  by (simp add: tmap_def wf_tensor_def)

lemma length_interleave:
  "length xs = length ys \<Longrightarrow> length (concat (map2 (\<lambda>x y. [x, y]) xs ys)) = length xs * 2"
  by (induction xs ys rule: list_induct2) simp_all

section \<open>Row counts of the training sets\<close>

lemma deriv_data_cell_shapes:
  "\<exists>tx ty. deriv_data_cell g = Inr (tx, ty)
     \<and> shape tx = [n_points, 1] \<and> shape ty = [n_points, 2]
     \<and> wf_tensor tx \<and> wf_tensor ty"
proof -
  define tx where "tx = unsqueeze_last (linspace lb ub n_points)"
  have sx: "shape tx = [n_points, 1]" by (simp add: tx_def unsqueeze_last_def linspace_def)
  have wx: "wf_tensor tx" by (simp add: tx_def unsqueeze_last_def linspace_def wf_tensor_def)
  obtain v where v: "tbin fadd (tmap fsin (tmap (fmul (Fin 2)) tx)) (tmap fcos tx) = Inr v"
    and sv: "shape v = [n_points, 1]" and wv: "wf_tensor v"
    using tbin_same_shape[of "tmap fsin (tmap (fmul (Fin 2)) tx)" "tmap fcos tx" fadd]
    by (auto simp: tmap_shape sx)
  obtain d where d: "tbin fadd (tmap fneg (tmap fsin tx))
                          (tmap (fmul (Fin 2)) (tmap fcos (tmap (fmul (Fin 2)) tx))) = Inr d"
    and sd: "shape d = [n_points, 1]" and wd: "wf_tensor d"
    using tbin_same_shape[of "tmap fneg (tmap fsin tx)"
        "tmap (fmul (Fin 2)) (tmap fcos (tmap (fmul (Fin 2)) tx))" fadd]
    by (auto simp: tmap_shape sx)
  define st where "st = \<lparr>shape = [n_points, 1, 2],
                elems = concat (map2 (\<lambda>x y. [x, y]) (elems v) (elems d))\<rparr>"
  have st: "stack_last v d = Inr st" by (simp add: stack_last_def sv sd st_def)
  have lv: "length (elems v) = n_points" and ld: "length (elems d) = n_points"
    using wv wd sv sd by (simp_all add: wf_tensor_def)
  have wst: "length (elems st) = n_points * 2"
    using length_interleave[of "elems v" "elems d"] lv ld by (simp add: st_def)
  define y0 where "y0 = st\<lparr>shape := [n_points, 2]\<rparr>"
  have sq: "squeeze1 st = Inr y0" by (simp add: squeeze1_def st_def y0_def)
  have sy0: "shape y0 = [n_points, 2]" by (simp add: y0_def)
  define noise where "noise = tmap (fmul (Fin 0.05)) (randn2 g n_points)"
  have sn: "shape noise = [n_points, 2]" by (simp add: noise_def tmap_shape randn2_def)
  obtain ty where t: "tbin fadd y0 noise = Inr ty" and sty: "shape ty = [n_points, 2]"
    and wty: "wf_tensor ty"
    using tbin_same_shape[of y0 noise fadd] sy0 sn by auto
  have ip: "tbin_inplace fadd y0 noise = Inr ty"
    by (simp add: tbin_inplace_def ebind_def t sty sy0)
  have "deriv_data_cell g = Inr (tx, ty)"
    unfolding deriv_data_cell_def Let_def tx_def[symmetric] noise_def[symmetric]
    by (simp add: ebind_def v d st sq ip)
  with sx sty wx wty show ?thesis by blast
qed

text \<open>
  Claim C4. In every training set the feature tensor and the target tensor have the
  same number of rows: in the KeOps notebook after the split and after the
  normalisation (both are the first \<open>n_train\<close> rows of the data), and in the derivative
  notebook, where the features have shape \<open>50 x 1\<close> and the targets \<open>50 x 2\<close>.
\<close>

theorem training_rows_match:
  "(\<forall>data ds. split_cell data = Inr ds \<longrightarrow>
       nrows (train_x ds) = length (train_y ds)
       \<and> length (train_y ds) = min (nrows data) (n_train_of (nrows data)))
   \<and> (\<forall>data ds. data_cell data = Inr ds \<longrightarrow> nrows (train_x ds) = length (train_y ds))
   \<and> (\<forall>g. \<exists>tx ty. deriv_data_cell g = Inr (tx, ty)
          \<and> shape tx = [50, 1] \<and> shape ty = [50, 2] \<and> hd (shape tx) = hd (shape ty)
          \<and> wf_tensor tx \<and> wf_tensor ty)"
proof (intro conjI allI impI)
  fix g
  from deriv_data_cell_shapes[of g] obtain tx ty where
    "deriv_data_cell g = Inr (tx, ty)" "shape tx = [n_points, 1]" "shape ty = [n_points, 2]"
    "wf_tensor tx" "wf_tensor ty" by blast
  then show "\<exists>tx ty. deriv_data_cell g = Inr (tx, ty)
          \<and> shape tx = [50, 1] \<and> shape ty = [50, 2] \<and> hd (shape tx) = hd (shape ty)
          \<and> wf_tensor tx \<and> wf_tensor ty"
    by (auto simp: n_points_def)
qed (simp_all add: split_cell_rows data_cell_rows)

lemma data_cell_example:
  "\<exists>ds. split_cell example_data = Inr example_split \<and> data_cell example_data = Inr ds"
proof -
  have s: "split_cell example_data = Inr example_split"
    by (simp add: split_cell_ok example_data_def example_split_def n_train_of_div nrows_def)
  have h1: "wf_mat (train_x example_split)" by (simp add: wf_mat_def example_split_def)
  have h2: "wf_mat (test_x example_split)" by (simp add: wf_mat_def example_split_def)
  have h3: "ncols (test_x example_split) = ncols (train_x example_split)"
    by (simp add: example_split_def)
  from normalize_cell_eq[OF h1 h2 h3] s show ?thesis
    by (simp add: data_cell_def ebind_def)
qed

theorem training_rows_match_witness:
  "split_cell example_data = Inr example_split
   \<and> nrows (train_x example_split) = length (train_y example_split)
   \<and> (\<exists>ds. data_cell example_data = Inr ds \<and> nrows (train_x ds) = length (train_y ds))"
  using training_rows_match data_cell_example by blast

section \<open>The score of the KeOps notebook\<close>




lemma map2_nth_upt:
  assumes "length p = length t"
  shows "map2 f p t = map (\<lambda>i. f (p ! i) (t ! i)) [0..<length t]"
  by (rule nth_equalityI) (simp_all add: assms)



section \<open>The model of the derivative notebook\<close>



section \<open>Running cells: basic facts\<close>

lemma nb_bindE:
  assumes "nb_bind m f s = (r, s')"
  obtains (fail) e where "m s = (Inl e, s')" "r = Inl e"
        | (ok) a s1 where "m s = (Inr a, s1)" "f a s1 = (r, s')"
  using assms by (auto simp: nb_bind_def split: prod.splits sum.splits)

lemma nb_bind_Inr:
  "nb_bind m f s = (Inr b, s') \<Longrightarrow> \<exists>a s1. m s = (Inr a, s1) \<and> f a s1 = (Inr b, s')"
  by (auto simp: nb_bind_def split: prod.splits sum.splits)

lemma ext_Inr:
  "ext L c s = (Inr a, s') \<Longrightarrow>
     calls s' = calls s @ [(c, Inr a)] \<and> stdout s' = stdout s \<and> files s' = files s"
  by (auto simp: ext_def split: prod.splits)

lemma ext_unit_Inr:
  "ext_unit L c s = (Inr u, s') \<Longrightarrow>
     \<exists>a. calls s' = calls s @ [(c, Inr a)] \<and> stdout s' = stdout s \<and> files s' = files s"
  by (auto simp: ext_unit_def nb_return_def dest!: nb_bind_Inr ext_Inr)

lemma ext_num_Inr:
  "ext_num L c s = (Inr x, s') \<Longrightarrow>
     calls s' = calls s @ [(c, Inr (RNum x))] \<and> stdout s' = stdout s \<and> files s' = files s"
  by (auto simp: ext_num_def nb_return_def nb_lift_def dest!: nb_bind_Inr ext_Inr split: res.splits)

lemma ext_real_Inr:
  "ext_real L c s = (Inr x, s') \<Longrightarrow>
     calls s' = calls s @ [(c, Inr (RReal x))] \<and> stdout s' = stdout s \<and> files s' = files s"
  by (auto simp: ext_real_def nb_return_def nb_lift_def dest!: nb_bind_Inr ext_Inr split: res.splits)

lemma ext_dist_Inr:
  "ext_dist L c s = (Inr x, s') \<Longrightarrow>
     calls s' = calls s @ [(c, Inr (RDist x))] \<and> stdout s' = stdout s \<and> files s' = files s"
  by (auto simp: ext_dist_def nb_return_def nb_lift_def dest!: nb_bind_Inr ext_Inr split: res.splits)

lemma print_line_eq:
  "print_line l s = (r, s') \<Longrightarrow>
     r = Inr () \<and> calls s' = calls s \<and> stdout s' = stdout s @ [l] \<and> files s' = files s"
  by (auto simp: print_line_def)

lemma keops_iteration_Inr:
  assumes "keops_iteration L tr_x tr_y n i s = (Inr u, s')"
  shows "\<exists>t0 r1 d m r2 ls nz r3 t1.
     calls s' = calls s @
       [(Time, Inr (RReal t0)), (ZeroGrad, Inr r1), (ModelCall tr_x, Inr (RDist d)),
        (MllCall d tr_y, Inr (RNum m)), (Backward (fneg m), Inr r2),
        (ParamItem ''model.covar_module.base_kernel.lengthscale'', Inr (RNum ls)),
        (ParamItem ''model.likelihood.noise'', Inr (RNum nz)),
        (OptStep, Inr r3), (Time, Inr (RReal t1))]
     \<and> stdout s' = stdout s @ [IterLine (i + 1) n (fneg m) ''lengthscale'' ls nz, TimeLine (t1 - t0)]
     \<and> files s' = files s"
  using assms unfolding keops_iteration_def Let_def
  by (fastforce dest!: nb_bind_Inr ext_unit_Inr ext_num_Inr ext_real_Inr ext_dist_Inr print_line_eq)

section \<open>Loops\<close>

lemma for_each_append:
  "for_each (xs @ ys) body s =
     (case for_each xs body s of (Inl e, s1) \<Rightarrow> (Inl e, s1) | (Inr _, s1) \<Rightarrow> for_each ys body s1)"
  by (induction xs arbitrary: s) (auto split: prod.splits sum.splits)

lemma for_range_Suc_Inr:
  assumes "for_range (Suc n) body s = (Inr u, s')"
  shows "\<exists>s1. for_range n body s = (Inr (), s1) \<and> body n s1 = (Inr (), s')"
  using assms by (auto simp: for_range_def for_each_append split: prod.splits sum.splits)

lemma for_range_blocks:
  assumes step: "\<And>i s s'. body i s = (Inr (), s') \<Longrightarrow>
      \<exists>b. calls s' = calls s @ b \<and> B b \<and> stdout s' = stdout s @ lines i b \<and> files s' = files s"
    and run: "for_range n body s = (Inr u, s')"
  shows "\<exists>bs. length bs = n \<and> (\<forall>b \<in> set bs. B b) \<and> calls s' = calls s @ concat bs
     \<and> stdout s' = stdout s @ concat (map (\<lambda>i. lines i (bs ! i)) [0..<n]) \<and> files s' = files s"
  using run
proof (induction n arbitrary: s' u)
  case 0
  then show ?case by (simp add: for_range_def)
next
  case (Suc n)
  from for_range_Suc_Inr[OF Suc.prems] obtain s1 where
    r1: "for_range n body s = (Inr (), s1)" and r2: "body n s1 = (Inr (), s')" by blast
  from Suc.IH[OF r1] obtain bs where bs: "length bs = n" "\<forall>b \<in> set bs. B b"
    "calls s1 = calls s @ concat bs"
    "stdout s1 = stdout s @ concat (map (\<lambda>i. lines i (bs ! i)) [0..<n])" "files s1 = files s"
    by blast
  from step[OF r2] obtain b where b: "calls s' = calls s1 @ b" "B b"
    "stdout s' = stdout s1 @ lines n b" "files s' = files s1" by blast
  have m: "map (\<lambda>i. lines i ((bs @ [b]) ! i)) [0..<n] = map (\<lambda>i. lines i (bs ! i)) [0..<n]"
    using bs(1) by (simp add: nth_append)
  have "length (bs @ [b]) = Suc n" using bs by simp
  moreover have "\<forall>x \<in> set (bs @ [b]). B x" using bs b by simp
  moreover have "calls s' = calls s @ concat (bs @ [b])" using bs b by simp
  moreover have "stdout s' = stdout s @ concat (map (\<lambda>i. lines i ((bs @ [b]) ! i)) [0..<Suc n])"
  proof -
    have "(bs @ [b]) ! n = b" using bs(1) by (simp add: nth_append)
    then show ?thesis using bs b by (simp only: upt_Suc_append le0 map_append concat_append m) simp
  qed
  moreover have "files s' = files s" using bs b by simp
  ultimately show ?case by blast
qed

lemma concat_singletons:
  assumes "\<forall>b \<in> set bs. length (f b) = 1"
  shows "length (concat (map f bs)) = length bs"
    and "i < length bs \<Longrightarrow> concat (map f bs) ! i = hd (f (bs ! i))"
proof -
  have "concat (map f bs) = map (\<lambda>b. hd (f b)) bs"
    using assms
  proof (induction bs)
    case Nil then show ?case by simp
  next
    case (Cons b bs)
    then have "length (f b) = 1" by simp
    then obtain x where "f b = [x]" by (cases "f b") auto
    with Cons show ?case by simp
  qed
  then show "length (concat (map f bs)) = length bs"
    and "i < length bs \<Longrightarrow> concat (map f bs) ! i = hd (f (bs ! i))" by simp_all
qed

lemma concat_pairs:
  assumes "\<forall>b \<in> set bs. length (f b) = 2"
  shows "length (concat (map f bs)) = 2 * length bs"
    and "i < length bs \<Longrightarrow> concat (map f bs) ! (2 * i) = f (bs ! i) ! 0"
    and "i < length bs \<Longrightarrow> concat (map f bs) ! (2 * i + 1) = f (bs ! i) ! 1"
  using assms
proof (induction bs arbitrary: i)
  case Nil
  { case 1 show ?case by simp }
  { case 2 then show ?case by simp }
  { case 3 then show ?case by simp }
next
  case (Cons b bs)
  { case 1 then show ?case using Cons.IH(1) by simp }
  { case 2
    then have l: "length (f b) = 2" and r: "\<forall>b \<in> set bs. length (f b) = 2" by simp_all
    show ?case
    proof (cases i)
      case 0 with l show ?thesis by (simp add: nth_append)
    next
      case (Suc j)
      with 2 have "j < length bs" by simp
      from Cons.IH(2)[OF this r] l Suc show ?thesis by (simp add: nth_append)
    qed }
  { case 3
    then have l: "length (f b) = 2" and r: "\<forall>b \<in> set bs. length (f b) = 2" by simp_all
    show ?case
    proof (cases i)
      case 0 with l show ?thesis by (simp add: nth_append)
    next
      case (Suc j)
      with 3 have "j < length bs" by simp
      from Cons.IH(3)[OF this r] l Suc show ?thesis by (simp add: nth_append)
    qed }
qed

section \<open>The training loops\<close>

lemma backward_losses_append [simp]:
  "backward_losses (xs @ ys) = backward_losses xs @ backward_losses ys"
  by (simp add: backward_losses_def)

lemma num_results_append [simp]:
  "num_results c (xs @ ys) = num_results c xs @ num_results c ys"
  by (simp add: num_results_def)

lemma real_results_append [simp]:
  "real_results c (xs @ ys) = real_results c xs @ real_results c ys"
  by (simp add: real_results_def)

lemma backward_losses_concat:
  "backward_losses (concat bs) = concat (map backward_losses bs)"
  by (induction bs) (simp_all add: backward_losses_def)

lemma num_results_concat: "num_results c (concat bs) = concat (map (num_results c) bs)"
  by (induction bs) (simp_all add: num_results_def)

lemma real_results_concat: "real_results c (concat bs) = concat (map (real_results c) bs)"
  by (induction bs) (simp_all add: real_results_def)

lemma keops_iteration_block:
  assumes "keops_iteration L tr_x tr_y n i s = (Inr (), s')"
  shows "\<exists>b. calls s' = calls s @ b \<and> keops_block b
     \<and> stdout s' = stdout s @ keops_lines n i b \<and> files s' = files s"
proof -
  from keops_iteration_Inr[OF assms] obtain b t0 m ls nz t1 where
    c: "calls s' = calls s @ b" and
    o: "stdout s' = stdout s @ [IterLine (i + 1) n (fneg m) ''lengthscale'' ls nz, TimeLine (t1 - t0)]"
    and f: "files s' = files s"
    and b1: "backward_losses b = [fneg m]"
    and b2: "num_results (ParamItem ''model.covar_module.base_kernel.lengthscale'') b = [ls]"
    and b3: "num_results (ParamItem ''model.likelihood.noise'') b = [nz]"
    and b4: "real_results Time b = [t0, t1]"
    by (fastforce simp: backward_losses_def num_results_def real_results_def)
  have "keops_block b" by (simp add: keops_block_def b1 b2 b3 b4)
  moreover have "keops_lines n i b = [IterLine (i + 1) n (fneg m) ''lengthscale'' ls nz, TimeLine (t1 - t0)]"
    by (simp add: keops_lines_def b1 b2 b3 b4)
  ultimately show ?thesis using c o f by auto
qed

lemma train_prefix:
  assumes "nb_bind (ext_unit L ModelTrain) (\<lambda>_.
     nb_bind (ext_unit L LikTrain) (\<lambda>_.
     nb_bind (ext_unit L Adam) (\<lambda>_.
     nb_bind (ext_unit L NewMll) (\<lambda>_. loop)))) s = (Inr u, s')"
  shows "\<exists>s1 pre. loop s1 = (Inr u, s') \<and> calls s1 = calls s @ pre \<and> stdout s1 = stdout s
     \<and> files s1 = files s
     \<and> backward_losses pre = [] \<and> (\<forall>n. num_results (ParamItem n) pre = [])
     \<and> real_results Time pre = []"
proof -
  from assms obtain s1 a1 a2 a3 a4 where "loop s1 = (Inr u, s')"
    "calls s1 = calls s @ [(ModelTrain, Inr a1), (LikTrain, Inr a2), (Adam, Inr a3), (NewMll, Inr a4)]"
    "stdout s1 = stdout s" "files s1 = files s"
    by (fastforce dest!: nb_bind_Inr ext_unit_Inr)
  then show ?thesis
    by (intro exI[of _ s1] exI[of _ "[(ModelTrain, Inr a1), (LikTrain, Inr a2), (Adam, Inr a3), (NewMll, Inr a4)]"])
       (simp add: backward_losses_def num_results_def real_results_def)
qed

lemma keops_train_cell_output:
  assumes run: "keops_train_cell L tr_x tr_y s = (Inr u, s')"
  defines "new \<equiv> new_calls s s'"
  defines "ls \<equiv> backward_losses new"
  defines "hs \<equiv> num_results (ParamItem ''model.covar_module.base_kernel.lengthscale'') new"
  defines "nz \<equiv> num_results (ParamItem ''model.likelihood.noise'') new"
  defines "ts \<equiv> real_results Time new"
  shows "length ls = 50 \<and> length hs = 50 \<and> length nz = 50 \<and> length ts = 100
     \<and> stdout s' = stdout s @ concat (map (\<lambda>i.
          [IterLine (i + 1) 50 (ls ! i) ''lengthscale'' (hs ! i) (nz ! i),
           TimeLine (ts ! (2 * i + 1) - ts ! (2 * i))]) [0..<50])
     \<and> files s' = files s"
proof -
  from train_prefix[OF run[unfolded keops_train_cell_def]] obtain s1 pre where
    loop: "for_range training_iter (keops_iteration L tr_x tr_y training_iter) s1 = (Inr u, s')"
    and pre: "calls s1 = calls s @ pre" "stdout s1 = stdout s" "files s1 = files s"
      "backward_losses pre = []" "\<And>n. num_results (ParamItem n) pre = []"
      "real_results Time pre = []"
    by blast
  from for_range_blocks[where B = keops_block and lines = "keops_lines training_iter", OF _ loop]
    keops_iteration_block
  obtain bs where bs: "length bs = training_iter" "\<forall>b \<in> set bs. keops_block b"
    "calls s' = calls s1 @ concat bs"
    "stdout s' = stdout s1 @ concat (map (\<lambda>i. keops_lines training_iter i (bs ! i)) [0..<training_iter])"
    "files s' = files s1"
    by blast
  have new: "new = pre @ concat bs" by (simp add: new_def new_calls_def bs pre)
  have ls: "ls = concat (map backward_losses bs)"
    by (simp add: ls_def new pre backward_losses_concat)
  have hs: "hs = concat (map (num_results (ParamItem ''model.covar_module.base_kernel.lengthscale'')) bs)"
    by (simp add: hs_def new pre num_results_concat)
  have nz: "nz = concat (map (num_results (ParamItem ''model.likelihood.noise'')) bs)"
    by (simp add: nz_def new pre num_results_concat)
  have ts: "ts = concat (map (real_results Time) bs)"
    by (simp add: ts_def new pre real_results_concat)
  have a1: "\<forall>b \<in> set bs. length (backward_losses b) = 1"
    and a2: "\<forall>b \<in> set bs. length (num_results (ParamItem ''model.covar_module.base_kernel.lengthscale'') b) = 1"
    and a3: "\<forall>b \<in> set bs. length (num_results (ParamItem ''model.likelihood.noise'') b) = 1"
    and a4: "\<forall>b \<in> set bs. length (real_results Time b) = 2"
    using bs(2) by (simp_all add: keops_block_def)
  have lens: "length ls = 50" "length hs = 50" "length nz = 50" "length ts = 100"
    unfolding ls hs nz ts
    using concat_singletons(1)[OF a1] concat_singletons(1)[OF a2] concat_singletons(1)[OF a3]
      concat_pairs(1)[OF a4] bs(1)
    by (simp_all add: training_iter_def)
  have lines: "\<And>i. i < training_iter \<Longrightarrow> keops_lines training_iter i (bs ! i) =
      [IterLine (i + 1) 50 (ls ! i) ''lengthscale'' (hs ! i) (nz ! i),
           TimeLine (ts ! (2 * i + 1) - ts ! (2 * i))]"
    unfolding ls hs nz ts keops_lines_def
    using concat_singletons(2)[OF a1] concat_singletons(2)[OF a2] concat_singletons(2)[OF a3]
      concat_pairs(2)[OF a4] concat_pairs(3)[OF a4] bs(1)
    by (simp add: training_iter_def)
  have eq: "map (\<lambda>i. keops_lines training_iter i (bs ! i)) [0..<training_iter]
      = map (\<lambda>i. [IterLine (i + 1) 50 (ls ! i) ''lengthscale'' (hs ! i) (nz ! i),
           TimeLine (ts ! (2 * i + 1) - ts ! (2 * i))]) [0..<training_iter]"
    by (rule map_cong[OF refl]) (simp add: lines)
  have "stdout s' = stdout s @ concat (map (\<lambda>i. keops_lines training_iter i (bs ! i)) [0..<training_iter])"
    using bs(4) pre(2) by simp
  then have "stdout s' = stdout s @ concat (map (\<lambda>i.
          [IterLine (i + 1) 50 (ls ! i) ''lengthscale'' (hs ! i) (nz ! i),
           TimeLine (ts ! (2 * i + 1) - ts ! (2 * i))]) [0..<training_iter])"
    by (simp only: eq)
  then show ?thesis using lens bs(5) pre(3) by (simp add: training_iter_def)
qed

section \<open>Runs with a library that does not fail\<close>

lemma never_fails_call:
  assumes "never_fails L"
  shows "\<exists>r w'. call_ext L c w = (Inr r, w') \<and> result_ok c r"
proof -
  from assms have "case fst (call_ext L c w) of Inl e \<Rightarrow> False | Inr r \<Rightarrow> result_ok c r"
    by (simp add: never_fails_def)
  then show ?thesis by (cases "call_ext L c w") (auto split: sum.splits)
qed

lemma succeeds_bind:
  assumes "succeeds m" "\<And>a. succeeds (f a)"
  shows "succeeds (nb_bind m f)"
  unfolding succeeds_def
proof
  fix s
  from assms(1) obtain a s1 where 1: "m s = (Inr a, s1)" unfolding succeeds_def by blast
  from assms(2)[of a] obtain b s2 where "f a s1 = (Inr b, s2)" unfolding succeeds_def by blast
  with 1 show "\<exists>b s'. nb_bind m f s = (Inr b, s')" by (simp add: nb_bind_def)
qed

lemma succeeds_return: "succeeds (nb_return a)"
  by (simp add: succeeds_def nb_return_def)

lemma succeeds_print: "succeeds (print_line l)"
  by (simp add: succeeds_def print_line_def)

lemma succeeds_ext:
  assumes "never_fails (L :: ('w, 'd) lib)"
  shows "succeeds (ext L c)"
  unfolding succeeds_def
proof
  fix s :: "('w, 'd) nb_state"
  from never_fails_call[OF assms, of c "world s"] obtain r w' where
    "call_ext L c (world s) = (Inr r, w')" by blast
  then show "\<exists>a s'. ext L c s = (Inr a, s')" by (simp add: ext_def)
qed

lemma succeeds_ext_unit: "never_fails L \<Longrightarrow> succeeds (ext_unit L c)"
  unfolding ext_unit_def by (intro succeeds_bind succeeds_ext succeeds_return)

lemma succeeds_typed:
  assumes nf: "never_fails (L :: ('w, 'd) lib)"
    and sel: "\<And>r. result_ok c r \<Longrightarrow> \<exists>a. k r = nb_return a"
  shows "succeeds (nb_bind (ext L c) k)"
  unfolding succeeds_def
proof
  fix s :: "('w, 'd) nb_state"
  from never_fails_call[OF nf, of c "world s"] obtain r w' where
    c: "call_ext L c (world s) = (Inr r, w')" and ok: "result_ok c r" by blast
  from sel[OF ok] obtain a where "k r = nb_return a" by blast
  with c show "\<exists>a s'. nb_bind (ext L c) k s = (Inr a, s')"
    by (simp add: nb_bind_def ext_def nb_return_def)
qed

lemma succeeds_ext_real: "never_fails L \<Longrightarrow> succeeds (ext_real L Time)"
  unfolding ext_real_def by (rule succeeds_typed) (auto split: res.splits)

lemma succeeds_ext_num_mll: "never_fails L \<Longrightarrow> succeeds (ext_num L (MllCall d y))"
  unfolding ext_num_def by (rule succeeds_typed) (auto split: res.splits)

lemma succeeds_ext_num_param: "never_fails L \<Longrightarrow> succeeds (ext_num L (ParamItem n))"
  unfolding ext_num_def by (rule succeeds_typed) (auto split: res.splits)

lemma succeeds_ext_dist_model: "never_fails L \<Longrightarrow> succeeds (ext_dist L (ModelCall x))"
  unfolding ext_dist_def by (rule succeeds_typed) (auto split: res.splits)

lemma succeeds_ext_dist_lik: "never_fails L \<Longrightarrow> succeeds (ext_dist L (LikCall f))"
  unfolding ext_dist_def by (rule succeeds_typed) (auto split: res.splits)

lemma succeeds_ext_tensor: "never_fails L \<Longrightarrow> succeeds (ext_tensor L (DistMean d))"
  unfolding ext_tensor_def by (rule succeeds_typed) (auto split: res.splits)

lemma succeeds_ext_tensors: "never_fails L \<Longrightarrow> succeeds (ext_tensors L (ConfRegion d))"
  unfolding ext_tensors_def by (rule succeeds_typed) (auto split: res.splits)

lemma succeeds_ext_mat: "never_fails L \<Longrightarrow> succeeds (ext_mat L (LoadMat c))"
  unfolding ext_mat_def by (rule succeeds_typed) (auto split: res.splits)

lemmas succeeds_intros =
  succeeds_bind succeeds_return succeeds_print succeeds_ext_unit succeeds_ext_real
  succeeds_ext_num_mll succeeds_ext_num_param succeeds_ext_dist_model succeeds_ext_dist_lik
  succeeds_ext_tensor succeeds_ext_tensors succeeds_ext_mat

lemma succeeds_for_each:
  assumes "\<And>i. succeeds (body i)"
  shows "succeeds (for_each xs body)"
  unfolding succeeds_def
proof
  fix s
  show "\<exists>a s'. for_each xs body s = (Inr a, s')"
  proof (induction xs arbitrary: s)
    case Nil then show ?case by simp
  next
    case (Cons i xs)
    from assms[of i] obtain u s1 where "body i s = (Inr u, s1)" unfolding succeeds_def by blast
    with Cons[of s1] show ?case by auto
  qed
qed

lemma succeeds_for_range: "(\<And>i. succeeds (body i)) \<Longrightarrow> succeeds (for_range n body)"
  unfolding for_range_def by (rule succeeds_for_each)

lemma succeeds_with_ctx:
  assumes nf: "never_fails L" and body: "succeeds body"
  shows "succeeds (with_ctx L enter exit body)"
  unfolding succeeds_def
proof
  fix s
  from succeeds_ext[OF nf, of enter] obtain a s1 where 1: "ext L enter s = (Inr a, s1)"
    unfolding succeeds_def by blast
  from body obtain r s2 where 2: "body s1 = (Inr r, s2)" unfolding succeeds_def by blast
  from succeeds_ext[OF nf, of exit] obtain b s3 where 3: "ext L exit s2 = (Inr b, s3)"
    unfolding succeeds_def by blast
  show "\<exists>a s'. with_ctx L enter exit body s = (Inr a, s')"
    by (simp add: with_ctx_def 1 2 3)
qed

lemma succeeds_do_all:
  assumes nf: "never_fails L"
  shows "succeeds (do_all L cs)"
  unfolding succeeds_def
proof
  fix s
  show "\<exists>a s'. do_all L cs s = (Inr a, s')"
  proof (induction cs arbitrary: s)
    case Nil then show ?case by simp
  next
    case (Cons c cs)
    from succeeds_ext_unit[OF nf, of c] obtain u s1 where "ext_unit L c s = (Inr u, s1)"
      unfolding succeeds_def by blast
    with Cons[of s1] show ?case by auto
  qed
qed

lemma keops_iteration_ok: "never_fails L \<Longrightarrow> succeeds (keops_iteration L tr_x tr_y n i)"
  unfolding keops_iteration_def Let_def by (intro succeeds_intros) 

lemma deriv_iteration_ok: "never_fails L \<Longrightarrow> succeeds (deriv_iteration L tr_x tr_y n i)"
  unfolding deriv_iteration_def Let_def by (intro succeeds_intros)

lemma keops_train_cell_ok: "never_fails L \<Longrightarrow> succeeds (keops_train_cell L tr_x tr_y)"
  unfolding keops_train_cell_def
  by (intro succeeds_intros succeeds_for_range keops_iteration_ok)

lemma deriv_train_cell_ok: "never_fails L \<Longrightarrow> succeeds (deriv_train_cell L tr_x tr_y)"
  unfolding deriv_train_cell_def
  by (intro succeeds_intros succeeds_for_range deriv_iteration_ok)

lemma example_lib_never_fails: "never_fails example_lib"
  by (auto simp: never_fails_def example_lib_def split: call.splits)

lemma deriv_iteration_Inr:
  assumes "deriv_iteration L tr_x tr_y n i s = (Inr u, s')"
  shows "\<exists>r1 d m r2 off nz r3.
     calls s' = calls s @
       [(ZeroGrad, Inr r1), (ModelCall tr_x, Inr (RDist d)),
        (MllCall d tr_y, Inr (RNum m)), (Backward (fneg m), Inr r2),
        (ParamItem ''model.covar_module.base_kernel.offset'', Inr (RNum off)),
        (ParamItem ''model.likelihood.noise'', Inr (RNum nz)),
        (OptStep, Inr r3)]
     \<and> stdout s' = stdout s @ [IterLine (i + 1) n (fneg m) ''offset'' off nz]
     \<and> files s' = files s"
  using assms unfolding deriv_iteration_def Let_def
  by (fastforce dest!: nb_bind_Inr ext_unit_Inr ext_num_Inr ext_dist_Inr print_line_eq)

lemma deriv_iteration_block:
  assumes "deriv_iteration L tr_x tr_y n i s = (Inr (), s')"
  shows "\<exists>b. calls s' = calls s @ b \<and> deriv_block b
     \<and> stdout s' = stdout s @ deriv_lines n i b \<and> files s' = files s"
proof -
  from deriv_iteration_Inr[OF assms] obtain b m off nz where
    c: "calls s' = calls s @ b" and
    o: "stdout s' = stdout s @ [IterLine (i + 1) n (fneg m) ''offset'' off nz]"
    and f: "files s' = files s"
    and b1: "backward_losses b = [fneg m]"
    and b2: "num_results (ParamItem ''model.covar_module.base_kernel.offset'') b = [off]"
    and b3: "num_results (ParamItem ''model.likelihood.noise'') b = [nz]"
    by (fastforce simp: backward_losses_def num_results_def)
  have "deriv_block b" by (simp add: deriv_block_def b1 b2 b3)
  moreover have "deriv_lines n i b = [IterLine (i + 1) n (fneg m) ''offset'' off nz]"
    by (simp add: deriv_lines_def b1 b2 b3)
  ultimately show ?thesis using c o f by auto
qed

lemma deriv_train_cell_output:
  assumes run: "deriv_train_cell L tr_x tr_y s = (Inr u, s')"
  defines "new \<equiv> new_calls s s'"
  defines "ls \<equiv> backward_losses new"
  defines "hs \<equiv> num_results (ParamItem ''model.covar_module.base_kernel.offset'') new"
  defines "nz \<equiv> num_results (ParamItem ''model.likelihood.noise'') new"
  shows "length ls = 50 \<and> length hs = 50 \<and> length nz = 50
     \<and> stdout s' = stdout s @ map (\<lambda>i.
          IterLine (i + 1) 50 (ls ! i) ''offset'' (hs ! i) (nz ! i)) [0..<50]
     \<and> files s' = files s"
proof -
  from train_prefix[OF run[unfolded deriv_train_cell_def]] obtain s1 pre where
    loop: "for_range n_iter (deriv_iteration L tr_x tr_y n_iter) s1 = (Inr u, s')"
    and pre: "calls s1 = calls s @ pre" "stdout s1 = stdout s" "files s1 = files s"
      "backward_losses pre = []" "\<And>n. num_results (ParamItem n) pre = []"
    by blast
  from for_range_blocks[where B = deriv_block and lines = "deriv_lines n_iter", OF _ loop]
    deriv_iteration_block
  obtain bs where bs: "length bs = n_iter" "\<forall>b \<in> set bs. deriv_block b"
    "calls s' = calls s1 @ concat bs"
    "stdout s' = stdout s1 @ concat (map (\<lambda>i. deriv_lines n_iter i (bs ! i)) [0..<n_iter])"
    "files s' = files s1"
    by blast
  have new: "new = pre @ concat bs" by (simp add: new_def new_calls_def bs pre)
  have ls: "ls = concat (map backward_losses bs)"
    by (simp add: ls_def new pre backward_losses_concat)
  have hs: "hs = concat (map (num_results (ParamItem ''model.covar_module.base_kernel.offset'')) bs)"
    by (simp add: hs_def new pre num_results_concat)
  have nz: "nz = concat (map (num_results (ParamItem ''model.likelihood.noise'')) bs)"
    by (simp add: nz_def new pre num_results_concat)
  have a1: "\<forall>b \<in> set bs. length (backward_losses b) = 1"
    and a2: "\<forall>b \<in> set bs. length (num_results (ParamItem ''model.covar_module.base_kernel.offset'') b) = 1"
    and a3: "\<forall>b \<in> set bs. length (num_results (ParamItem ''model.likelihood.noise'') b) = 1"
    using bs(2) by (simp_all add: deriv_block_def)
  have lens: "length ls = 50" "length hs = 50" "length nz = 50"
    unfolding ls hs nz
    using concat_singletons(1)[OF a1] concat_singletons(1)[OF a2] concat_singletons(1)[OF a3] bs(1)
    by (simp_all add: n_iter_def)
  have lines: "\<And>i. i < n_iter \<Longrightarrow> deriv_lines n_iter i (bs ! i) =
      [IterLine (i + 1) 50 (ls ! i) ''offset'' (hs ! i) (nz ! i)]"
    unfolding ls hs nz deriv_lines_def
    using concat_singletons(2)[OF a1] concat_singletons(2)[OF a2] concat_singletons(2)[OF a3] bs(1)
    by (simp add: n_iter_def)
  have eq: "map (\<lambda>i. deriv_lines n_iter i (bs ! i)) [0..<n_iter]
      = map (\<lambda>i. [IterLine (i + 1) 50 (ls ! i) ''offset'' (hs ! i) (nz ! i)]) [0..<n_iter]"
    by (rule map_cong[OF refl]) (simp add: lines)
  have "stdout s' = stdout s @ concat (map (\<lambda>i. deriv_lines n_iter i (bs ! i)) [0..<n_iter])"
    using bs(4) pre(2) by simp
  then have "stdout s' = stdout s @ concat (map (\<lambda>i.
          [IterLine (i + 1) 50 (ls ! i) ''offset'' (hs ! i) (nz ! i)]) [0..<n_iter])"
    by (simp only: eq)
  also have "concat (map (\<lambda>i. [IterLine (i + 1) 50 (ls ! i) ''offset'' (hs ! i) (nz ! i)]) [0..<n_iter])
     = map (\<lambda>i. IterLine (i + 1) 50 (ls ! i) ''offset'' (hs ! i) (nz ! i)) [0..<n_iter]"
    by (induction n_iter) simp_all
  finally show ?thesis using lens bs(5) pre(3) by (simp add: n_iter_def)
qed

text \<open>
  Claim C1. In both notebooks the training loop runs a fixed number of iterations, 50,
  set before the loop. When no call raises, the loop prints, in each iteration, exactly
  one diagnostic line: it holds the iteration index counted from 1, the total 50, the
  loss of the iteration (the one \<open>backward\<close> was called on) and the values of the
  hyperparameters read in the iteration. The loop of the KeOps notebook also prints,
  after that line, the time the iteration took.
\<close>

theorem training_loops_print:
  "(\<forall>(L :: ('w, 'd) lib) tr_x tr_y s s'.
      keops_train_cell L tr_x tr_y s = (Inr (), s') \<longrightarrow>
      (let new = new_calls s s';
           ls = backward_losses new;
           hs = num_results (ParamItem ''model.covar_module.base_kernel.lengthscale'') new;
           nz = num_results (ParamItem ''model.likelihood.noise'') new;
           ts = real_results Time new
       in training_iter = 50
          \<and> length ls = 50 \<and> length hs = 50 \<and> length nz = 50 \<and> length ts = 100
          \<and> stdout s' = stdout s @ concat (map (\<lambda>i.
              [IterLine (i + 1) 50 (ls ! i) ''lengthscale'' (hs ! i) (nz ! i),
               TimeLine (ts ! (2 * i + 1) - ts ! (2 * i))]) [0..<50])))
   \<and> (\<forall>(L :: ('w, 'd) lib) tr_x tr_y s s'.
      deriv_train_cell L tr_x tr_y s = (Inr (), s') \<longrightarrow>
      (let new = new_calls s s';
           ls = backward_losses new;
           hs = num_results (ParamItem ''model.covar_module.base_kernel.offset'') new;
           nz = num_results (ParamItem ''model.likelihood.noise'') new
       in n_iter = 50
          \<and> length ls = 50 \<and> length hs = 50 \<and> length nz = 50
          \<and> stdout s' = stdout s @ map (\<lambda>i.
              IterLine (i + 1) 50 (ls ! i) ''offset'' (hs ! i) (nz ! i)) [0..<50]))"
  using keops_train_cell_output deriv_train_cell_output
  unfolding Let_def training_iter_def n_iter_def by blast

theorem training_loops_print_witness:
  "(\<exists>s'. keops_train_cell example_lib (of_vec []) (of_vec []) empty_state = (Inr (), s')
       \<and> length (stdout s') = 100)
   \<and> (\<exists>s'. deriv_train_cell example_lib (of_vec []) (of_vec []) empty_state = (Inr (), s')
       \<and> length (stdout s') = 50)"
proof -
  from keops_train_cell_ok[OF example_lib_never_fails, of "of_vec []" "of_vec []"]
  obtain s1 where k: "keops_train_cell example_lib (of_vec []) (of_vec []) empty_state = (Inr (), s1)"
    unfolding succeeds_def by auto
  from deriv_train_cell_ok[OF example_lib_never_fails, of "of_vec []" "of_vec []"]
  obtain s2 where d: "deriv_train_cell example_lib (of_vec []) (of_vec []) empty_state = (Inr (), s2)"
    unfolding succeeds_def by auto
  from training_loops_print[THEN conjunct1, rule_format, OF k]
  have "length (stdout s1) = 100"
    by (simp add: Let_def empty_state_def length_concat sum_list_triv comp_def)
  moreover from training_loops_print[THEN conjunct2, rule_format, OF d]
  have "length (stdout s2) = 50"
    by (simp add: Let_def empty_state_def)
  ultimately show ?thesis using k d by blast
qed

section \<open>The loss of the training loops\<close>

lemma ext_any:
  "ext L c s = (r, s') \<Longrightarrow>
     calls s' = calls s @ [(c, r)] \<and> stdout s' = stdout s \<and> files s' = files s"
  by (auto simp: ext_def split: prod.splits)

lemma ext_unit_any:
  "ext_unit L c s = (r, s') \<Longrightarrow>
     \<exists>oc. calls s' = calls s @ [(c, oc)] \<and> stdout s' = stdout s \<and> files s' = files s
        \<and> ((\<exists>v. r = Inr () \<and> oc = Inr v) \<or> (\<exists>e. r = Inl e \<and> oc = Inl e))"
  by (auto simp: ext_unit_def nb_return_def elim!: nb_bindE dest!: ext_any)

lemma ext_num_any:
  "ext_num L c s = (r, s') \<Longrightarrow>
     \<exists>oc. calls s' = calls s @ [(c, oc)] \<and> stdout s' = stdout s \<and> files s' = files s
        \<and> ((\<exists>x. r = Inr x \<and> oc = Inr (RNum x)) \<or> (\<exists>e. r = Inl e \<and> oc = Inl e)
           \<or> (\<exists>v. r = Inl TypeError \<and> oc = Inr v))"
  by (auto simp: ext_num_def nb_return_def nb_lift_def elim!: nb_bindE dest!: ext_any
        split: res.splits)

lemma ext_real_any:
  "ext_real L c s = (r, s') \<Longrightarrow>
     \<exists>oc. calls s' = calls s @ [(c, oc)] \<and> stdout s' = stdout s \<and> files s' = files s
        \<and> ((\<exists>x. r = Inr x \<and> oc = Inr (RReal x)) \<or> (\<exists>e. r = Inl e \<and> oc = Inl e)
           \<or> (\<exists>v. r = Inl TypeError \<and> oc = Inr v))"
  by (auto simp: ext_real_def nb_return_def nb_lift_def elim!: nb_bindE dest!: ext_any
        split: res.splits)

lemma ext_dist_any:
  "ext_dist L c s = (r, s') \<Longrightarrow>
     \<exists>oc. calls s' = calls s @ [(c, oc)] \<and> stdout s' = stdout s \<and> files s' = files s
        \<and> ((\<exists>x. r = Inr x \<and> oc = Inr (RDist x)) \<or> (\<exists>e. r = Inl e \<and> oc = Inl e)
           \<or> (\<exists>v. r = Inl TypeError \<and> oc = Inr v))"
  by (auto simp: ext_dist_def nb_return_def nb_lift_def elim!: nb_bindE dest!: ext_any
        split: res.splits)

lemma keops_iteration_scan:
  assumes "keops_iteration L tr_x tr_y n i s = (r, s')"
  shows "\<exists>b. calls s' = calls s @ b \<and> backward_scan tr_x tr_y None None b"
  using assms unfolding keops_iteration_def Let_def
  by (auto elim!: nb_bindE dest!: ext_unit_any ext_num_any ext_real_any ext_dist_any print_line_eq)


lemma deriv_iteration_scan:
  assumes "deriv_iteration L tr_x tr_y n i s = (r, s')"
  shows "\<exists>b. calls s' = calls s @ b \<and> backward_scan tr_x tr_y None None b"
  using assms unfolding deriv_iteration_def Let_def
  by (auto elim!: nb_bindE dest!: ext_unit_any ext_num_any ext_dist_any print_line_eq)

lemma scan_weaken1:
  "backward_scan tr_x tr_y None q evs \<Longrightarrow> backward_scan tr_x tr_y p q evs"
  by (cases evs) (auto split: call.splits)

lemma scan_weaken:
  "backward_scan tr_x tr_y None None evs \<Longrightarrow> backward_scan tr_x tr_y p q evs"
  by (cases evs) (auto split: call.splits intro: scan_weaken1)

lemma scan_append:
  "backward_scan tr_x tr_y p q b1 \<Longrightarrow> backward_scan tr_x tr_y None None b2 \<Longrightarrow>
   backward_scan tr_x tr_y p q (b1 @ b2)"
  by (induction b1 arbitrary: p q) (auto intro: scan_weaken)

lemma scan_nth:
  assumes "backward_scan tr_x tr_y p2 p1 evs" "k < length evs" "evs ! k = (Backward l, oc)"
  shows "\<exists>d m. (p2 # p1 # map Some evs) ! k = Some (ModelCall tr_x, Inr (RDist d))
     \<and> (p2 # p1 # map Some evs) ! Suc k = Some (MllCall d tr_y, Inr (RNum m)) \<and> l = fneg m"
  using assms
proof (induction evs arbitrary: p2 p1 k)
  case Nil then show ?case by simp
next
  case (Cons ev evs)
  show ?case
  proof (cases k)
    case 0
    with Cons.prems show ?thesis by auto
  next
    case (Suc j)
    with Cons.prems have "backward_scan tr_x tr_y p1 (Some ev) evs" "j < length evs"
      "evs ! j = (Backward l, oc)" by simp_all
    from Cons.IH[OF this] Suc show ?thesis by simp
  qed
qed

lemma scan_index:
  assumes sc: "backward_scan tr_x tr_y None None evs" and k: "k < length evs"
    and ev: "evs ! k = (Backward l, oc)"
  shows "2 \<le> k \<and> (\<exists>d m. evs ! (k - 2) = (ModelCall tr_x, Inr (RDist d))
     \<and> evs ! (k - 1) = (MllCall d tr_y, Inr (RNum m)) \<and> l = fneg m)"
proof -
  from scan_nth[OF sc k ev] obtain d m where
    a: "(None # None # map Some evs) ! k = Some (ModelCall tr_x, Inr (RDist d))"
    and b: "(None # None # map Some evs) ! Suc k = Some (MllCall d tr_y, Inr (RNum m))"
    and l: "l = fneg m" by blast
  from a have k2: "2 \<le> k" by (cases k; cases "k - 1") auto
  then obtain j where j: "k = Suc (Suc j)" by (metis Suc_le_D numeral_2_eq_2 Suc_le_mono)
  with k have "j < length evs" "Suc j < length evs" by simp_all
  with a b j have "evs ! j = (ModelCall tr_x, Inr (RDist d))"
    "evs ! Suc j = (MllCall d tr_y, Inr (RNum m))" by simp_all
  with k2 l j show ?thesis by auto
qed

lemma for_each_scan:
  assumes step: "\<And>i s r s'. body i s = (r, s') \<Longrightarrow>
      \<exists>b. calls s' = calls s @ b \<and> backward_scan tr_x tr_y None None b"
    and run: "for_each xs body s = (r, s')"
  shows "\<exists>b. calls s' = calls s @ b \<and> backward_scan tr_x tr_y None None b"
  using run
proof (induction xs arbitrary: s)
  case Nil
  then show ?case by simp
next
  case (Cons i xs)
  obtain r1 s1 where b: "body i s = (r1, s1)" by (cases "body i s")
  from step[OF b] obtain b1 where b1: "calls s1 = calls s @ b1"
    "backward_scan tr_x tr_y None None b1" by blast
  show ?case
  proof (cases r1)
    case (Inl e)
    with Cons.prems b b1 show ?thesis by auto
  next
    case (Inr u)
    with Cons.prems b have "for_each xs body s1 = (r, s')" by simp
    from Cons.IH[OF this] obtain b2 where "calls s' = calls s1 @ b2"
      "backward_scan tr_x tr_y None None b2" by blast
    with b1 show ?thesis using scan_append[of tr_x tr_y None None b1 b2] by auto
  qed
qed

lemma train_cell_scan:
  assumes loop: "\<And>s r s'. loop s = (r, s') \<Longrightarrow>
      \<exists>b. calls s' = calls s @ b \<and> backward_scan tr_x tr_y None None b"
    and run: "nb_bind (ext_unit L ModelTrain) (\<lambda>_.
     nb_bind (ext_unit L LikTrain) (\<lambda>_.
     nb_bind (ext_unit L Adam) (\<lambda>_.
     nb_bind (ext_unit L NewMll) (\<lambda>_. loop)))) s = (r, s')"
  shows "backward_scan tr_x tr_y None None (new_calls s s')"
  using run
  by (auto elim!: nb_bindE dest!: ext_unit_any loop simp: new_calls_def
        intro: scan_weaken)

lemma keops_train_cell_scan:
  "keops_train_cell L tr_x tr_y s = (r, s') \<Longrightarrow>
     backward_scan tr_x tr_y None None (new_calls s s')"
  unfolding keops_train_cell_def for_range_def
  by (erule train_cell_scan[rotated]) (erule for_each_scan[rotated], erule keops_iteration_scan)

lemma deriv_train_cell_scan:
  "deriv_train_cell L tr_x tr_y s = (r, s') \<Longrightarrow>
     backward_scan tr_x tr_y None None (new_calls s s')"
  unfolding deriv_train_cell_def for_range_def
  by (erule train_cell_scan[rotated]) (erule for_each_scan[rotated], erule deriv_iteration_scan)


lemma backward_losses_nonempty:
  assumes "backward_losses evs \<noteq> []"
  shows "\<exists>k l oc. k < length evs \<and> evs ! k = (Backward l, oc)"
proof -
  from assms obtain ev where ev: "ev \<in> set evs"
    "(case fst ev of Backward l \<Rightarrow> [l] | _ \<Rightarrow> []) \<noteq> []"
    by (auto simp: backward_losses_def)
  then obtain l where "fst ev = Backward l" by (cases "fst ev") auto
  then have "ev = (Backward l, snd ev)" by (cases ev) simp
  moreover from ev(1) obtain k where "k < length evs" "evs ! k = ev"
    by (auto simp: in_set_conv_nth)
  ultimately show ?thesis by auto
qed

text \<open>
  Claim C2. In both training loops every call of \<open>backward\<close> is made on the negated
  result of the marginal log-likelihood, called just before on the training targets and
  on the distribution that the model, called just before that, returned on the training
  inputs: \<open>loss = -mll(model(train_x), train_y)\<close>. A loop that ends without an
  exception has made 50 such calls.
\<close>

theorem loss_is_negated_mll:
  "(\<forall>(L :: ('w, 'd) lib) tr_x tr_y s r s'.
      keops_train_cell L tr_x tr_y s = (r, s') \<longrightarrow>
      (r = Inr () \<longrightarrow> length (backward_losses (new_calls s s')) = 50)
      \<and> (\<forall>k l oc. k < length (new_calls s s') \<and> new_calls s s' ! k = (Backward l, oc) \<longrightarrow>
            2 \<le> k \<and> (\<exists>d m. new_calls s s' ! (k - 2) = (ModelCall tr_x, Inr (RDist d))
                       \<and> new_calls s s' ! (k - 1) = (MllCall d tr_y, Inr (RNum m))
                       \<and> l = fneg m)))
   \<and> (\<forall>(L :: ('w, 'd) lib) tr_x tr_y s r s'.
      deriv_train_cell L tr_x tr_y s = (r, s') \<longrightarrow>
      (r = Inr () \<longrightarrow> length (backward_losses (new_calls s s')) = 50)
      \<and> (\<forall>k l oc. k < length (new_calls s s') \<and> new_calls s s' ! k = (Backward l, oc) \<longrightarrow>
            2 \<le> k \<and> (\<exists>d m. new_calls s s' ! (k - 2) = (ModelCall tr_x, Inr (RDist d))
                       \<and> new_calls s s' ! (k - 1) = (MllCall d tr_y, Inr (RNum m))
                       \<and> l = fneg m)))"
proof (intro conjI allI impI)
  fix L :: "('w, 'd) lib" and tr_x tr_y s r s'
  assume run: "keops_train_cell L tr_x tr_y s = (r, s')"
  { assume "r = Inr ()"
    with keops_train_cell_output[of L tr_x tr_y s "()" s'] run
    show "length (backward_losses (new_calls s s')) = 50" by simp }
  { fix k l oc
    assume "k < length (new_calls s s') \<and> new_calls s s' ! k = (Backward l, oc)"
    with scan_index[OF keops_train_cell_scan[OF run], of k l oc]
    show "2 \<le> k" and "\<exists>d m. new_calls s s' ! (k - 2) = (ModelCall tr_x, Inr (RDist d))
                       \<and> new_calls s s' ! (k - 1) = (MllCall d tr_y, Inr (RNum m))
                       \<and> l = fneg m" by blast+ }
next
  fix L :: "('w, 'd) lib" and tr_x tr_y s r s'
  assume run: "deriv_train_cell L tr_x tr_y s = (r, s')"
  { assume "r = Inr ()"
    with deriv_train_cell_output[of L tr_x tr_y s "()" s'] run
    show "length (backward_losses (new_calls s s')) = 50" by simp }
  { fix k l oc
    assume "k < length (new_calls s s') \<and> new_calls s s' ! k = (Backward l, oc)"
    with scan_index[OF deriv_train_cell_scan[OF run], of k l oc]
    show "2 \<le> k" and "\<exists>d m. new_calls s s' ! (k - 2) = (ModelCall tr_x, Inr (RDist d))
                       \<and> new_calls s s' ! (k - 1) = (MllCall d tr_y, Inr (RNum m))
                       \<and> l = fneg m" by blast+ }
qed

theorem loss_is_negated_mll_witness:
  "(\<exists>s' k l oc d m.
     keops_train_cell example_lib (of_vec [Fin 1]) (of_vec [Fin 2]) empty_state = (Inr (), s')
     \<and> k < length (new_calls empty_state s')
     \<and> new_calls empty_state s' ! k = (Backward l, oc)
     \<and> new_calls empty_state s' ! (k - 2) = (ModelCall (of_vec [Fin 1]), Inr (RDist d))
     \<and> new_calls empty_state s' ! (k - 1) = (MllCall d (of_vec [Fin 2]), Inr (RNum m))
     \<and> l = fneg m)
   \<and> (\<exists>s' k l oc d m.
     deriv_train_cell example_lib (of_vec [Fin 1]) (of_vec [Fin 2]) empty_state = (Inr (), s')
     \<and> k < length (new_calls empty_state s')
     \<and> new_calls empty_state s' ! k = (Backward l, oc)
     \<and> new_calls empty_state s' ! (k - 2) = (ModelCall (of_vec [Fin 1]), Inr (RDist d))
     \<and> new_calls empty_state s' ! (k - 1) = (MllCall d (of_vec [Fin 2]), Inr (RNum m))
     \<and> l = fneg m)"
proof
  from keops_train_cell_ok[OF example_lib_never_fails, of "of_vec [Fin 1]" "of_vec [Fin 2]"]
  obtain s' where
    run: "keops_train_cell example_lib (of_vec [Fin 1]) (of_vec [Fin 2]) empty_state = (Inr (), s')"
    unfolding succeeds_def by auto
  note c2 = loss_is_negated_mll[THEN conjunct1, rule_format, OF run]
  from c2 have "length (backward_losses (new_calls empty_state s')) = 50" by simp
  then have "backward_losses (new_calls empty_state s') \<noteq> []" by auto
  from backward_losses_nonempty[OF this] obtain k l oc where
    k: "k < length (new_calls empty_state s')" "new_calls empty_state s' ! k = (Backward l, oc)"
    by blast
  with c2 obtain d m where
    "new_calls empty_state s' ! (k - 2) = (ModelCall (of_vec [Fin 1]), Inr (RDist d))"
    "new_calls empty_state s' ! (k - 1) = (MllCall d (of_vec [Fin 2]), Inr (RNum m))"
    "l = fneg m" by blast
  with run k show "\<exists>s' k l oc d m.
     keops_train_cell example_lib (of_vec [Fin 1]) (of_vec [Fin 2]) empty_state = (Inr (), s')
     \<and> k < length (new_calls empty_state s')
     \<and> new_calls empty_state s' ! k = (Backward l, oc)
     \<and> new_calls empty_state s' ! (k - 2) = (ModelCall (of_vec [Fin 1]), Inr (RDist d))
     \<and> new_calls empty_state s' ! (k - 1) = (MllCall d (of_vec [Fin 2]), Inr (RNum m))
     \<and> l = fneg m" by blast
next
  from deriv_train_cell_ok[OF example_lib_never_fails, of "of_vec [Fin 1]" "of_vec [Fin 2]"]
  obtain s' where
    run: "deriv_train_cell example_lib (of_vec [Fin 1]) (of_vec [Fin 2]) empty_state = (Inr (), s')"
    unfolding succeeds_def by auto
  note c2 = loss_is_negated_mll[THEN conjunct2, rule_format, OF run]
  from c2 have "length (backward_losses (new_calls empty_state s')) = 50" by simp
  then have "backward_losses (new_calls empty_state s') \<noteq> []" by auto
  from backward_losses_nonempty[OF this] obtain k l oc where
    k: "k < length (new_calls empty_state s')" "new_calls empty_state s' ! k = (Backward l, oc)"
    by blast
  with c2 obtain d m where
    "new_calls empty_state s' ! (k - 2) = (ModelCall (of_vec [Fin 1]), Inr (RDist d))"
    "new_calls empty_state s' ! (k - 1) = (MllCall d (of_vec [Fin 2]), Inr (RNum m))"
    "l = fneg m" by blast
  with run k show "\<exists>s' k l oc d m.
     deriv_train_cell example_lib (of_vec [Fin 1]) (of_vec [Fin 2]) empty_state = (Inr (), s')
     \<and> k < length (new_calls empty_state s')
     \<and> new_calls empty_state s' ! k = (Backward l, oc)
     \<and> new_calls empty_state s' ! (k - 2) = (ModelCall (of_vec [Fin 1]), Inr (RDist d))
     \<and> new_calls empty_state s' ! (k - 1) = (MllCall d (of_vec [Fin 2]), Inr (RNum m))
     \<and> l = fneg m" by blast
qed

section \<open>The prediction cells\<close>

lemma last_call_snoc:
  "last_call P (evs @ [ev]) = (if P (fst ev) then Some (fst ev) else last_call P evs)"
  by (simp add: last_call_def Let_def)

lemma predict_scan_sound:
  assumes "predict_scan (last_call is_model_mode pre) (last_call is_lik_mode pre)
             (last_call is_mode pre) (last_call is_grad_ctx pre) evs"
    and "k < length evs" and "is_predict (fst (evs ! k))"
  shows "last_call is_model_mode (pre @ take k evs) = Some ModelEval
     \<and> last_call is_lik_mode (pre @ take k evs) = Some LikEval
     \<and> last_call is_mode (pre @ take k evs) = Some LikEval
     \<and> last_call is_grad_ctx (pre @ take k evs) = Some NoGradEnter"
  using assms
proof (induction evs arbitrary: pre k)
  case Nil then show ?case by simp
next
  case (Cons ev evs)
  show ?case
  proof (cases k)
    case 0
    with Cons.prems show ?thesis by simp
  next
    case (Suc j)
    from Cons.prems(1) have
      "predict_scan (last_call is_model_mode (pre @ [ev])) (last_call is_lik_mode (pre @ [ev]))
             (last_call is_mode (pre @ [ev])) (last_call is_grad_ctx (pre @ [ev])) evs"
      by (simp add: last_call_snoc)
    moreover from Cons.prems Suc have "j < length evs" "is_predict (fst (evs ! j))" by simp_all
    ultimately show ?thesis using Cons.IH[of "pre @ [ev]" j] Suc by simp
  qed
qed

lemma with_ctxE:
  assumes "with_ctx L enter exit body s = (r, s')"
  obtains (enter_fail) e where "ext L enter s = (Inl e, s')" "r = Inl e"
  | (exit_fail) a s1 rb s2 e where "ext L enter s = (Inr a, s1)" "body s1 = (rb, s2)"
      "ext L exit s2 = (Inl e, s')" "r = Inl e"
  | (exit_ok) a s1 s2 b where "ext L enter s = (Inr a, s1)" "body s1 = (r, s2)"
      "ext L exit s2 = (Inr b, s')"
  using assms by (auto simp: with_ctx_def split: prod.splits sum.splits)

lemma keops_predict_cell_scan:
  assumes "keops_predict_cell L te_x s = (r, s')"
  shows "predict_scan a b c g (new_calls s s')"
  using assms unfolding keops_predict_cell_def
  by (auto elim!: nb_bindE with_ctxE dest!: ext_unit_any ext_dist_any ext_any
        simp: new_calls_def is_mode_def)


lemma predict_scan_no_predict:
  "\<forall>ev \<in> set evs. \<not> is_predict (fst ev) \<Longrightarrow> predict_scan a b c g evs"
  by (induction evs arbitrary: a b c g) simp_all

lemma do_all_calls:
  assumes "do_all L cs s = (r, s')"
  shows "\<exists>evs. calls s' = calls s @ evs \<and> fst ` set evs \<subseteq> set cs
     \<and> stdout s' = stdout s \<and> files s' = files s"
  using assms
proof (induction cs arbitrary: s)
  case Nil then show ?case by simp
next
  case (Cons c cs)
  obtain r1 s1 where 1: "ext_unit L c s = (r1, s1)" by (cases "ext_unit L c s")
  from ext_unit_any[OF 1] obtain oc where oc: "calls s1 = calls s @ [(c, oc)]"
    "stdout s1 = stdout s" "files s1 = files s" by blast
  show ?case
  proof (cases r1)
    case (Inl e)
    with Cons.prems 1 oc show ?thesis by (auto intro!: exI[of _ "[(c, oc)]"])
  next
    case (Inr u)
    with Cons.prems 1 have "do_all L cs s1 = (r, s')" by simp
    from Cons.IH[OF this] obtain evs where "calls s' = calls s1 @ evs" "fst ` set evs \<subseteq> set cs"
      "stdout s' = stdout s1" "files s' = files s1" by blast
    with oc show ?thesis by (auto intro!: exI[of _ "(c, oc) # evs"])
  qed
qed

lemma deriv_plots_no_predict:
  assumes "fst ` set evs \<subseteq> set (deriv_plots :: 'd call list)"
  shows "predict_scan a b c g (evs :: ('d call \<times> (exn + 'd res)) list)"
proof (rule predict_scan_no_predict, rule ballI)
  fix ev assume "ev \<in> set evs"
  with assms have "fst ev \<in> set (deriv_plots :: 'd call list)" by auto
  then show "\<not> is_predict (fst ev)" by (auto simp: deriv_plots_def)
qed

lemma ext_tensor_any:
  "ext_tensor L c s = (r, s') \<Longrightarrow>
     \<exists>oc. calls s' = calls s @ [(c, oc)] \<and> stdout s' = stdout s \<and> files s' = files s
        \<and> ((\<exists>x. r = Inr x \<and> oc = Inr (RTensor x)) \<or> (\<exists>e. r = Inl e \<and> oc = Inl e)
           \<or> (\<exists>v. r = Inl TypeError \<and> oc = Inr v))"
  by (auto simp: ext_tensor_def nb_return_def nb_lift_def elim!: nb_bindE dest!: ext_any
        split: res.splits)

lemma ext_tensors_any:
  "ext_tensors L c s = (r, s') \<Longrightarrow>
     \<exists>oc. calls s' = calls s @ [(c, oc)] \<and> stdout s' = stdout s \<and> files s' = files s
        \<and> ((\<exists>x y. r = Inr (x, y) \<and> oc = Inr (RTensors x y)) \<or> (\<exists>e. r = Inl e \<and> oc = Inl e)
           \<or> (\<exists>v. r = Inl TypeError \<and> oc = Inr v))"
  by (auto simp: ext_tensors_def nb_return_def nb_lift_def elim!: nb_bindE dest!: ext_any
        split: res.splits)


lemma deriv_predict_cell_scan:
  assumes "deriv_predict_cell L s = (r, s')"
  shows "predict_scan a b c g (new_calls s s')"
  using assms unfolding deriv_predict_cell_def Let_def
  by (auto elim!: nb_bindE with_ctxE
        dest!: ext_unit_any ext_dist_any ext_tensor_any ext_tensors_any ext_any do_all_calls
        simp: new_calls_def is_mode_def nb_return_def intro: deriv_plots_no_predict)

section \<open>Regular programs\<close>

lemma raised_append [simp]: "raised (xs @ ys) = raised xs @ raised ys"
  by (simp add: raised_def)

lemma raised_Cons [simp]:
  "raised ((c, Inl e) # evs) = e # raised evs" "raised ((c, Inr v) # evs) = raised evs"
  by (simp_all add: raised_def)

lemma raised_single [simp]:
  "raised [(c, Inl e)] = [e]" "raised [(c, Inr v)] = []" "raised [] = []"
  by (simp_all add: raised_def)

lemma only_exits_append_quiet:
  "raised xs = [] \<Longrightarrow> only_exits_after_raise (xs @ ys) = only_exits_after_raise ys"
  by (induction xs) (auto simp: raised_def split: sum.splits)

lemma only_exits_snoc:
  "only_exits_after_raise (xs @ [x])
     = (only_exits_after_raise xs \<and> (raised xs \<noteq> [] \<longrightarrow> is_exit (fst x)))"
  by (induction xs) (auto simp: raised_def split: sum.splits)

lemma propagates_Nil [simp]: "propagates [] x"
  by (simp add: propagates_def last_raised_def)

lemma propagates_single: "propagates [(c, r)] (exn_of r)"
  by (cases r) (simp_all add: propagates_def last_raised_def exn_of_def)

lemma propagates_quiet:
  "propagates new None \<Longrightarrow> raised new = []"
  by (auto simp: propagates_def last_raised_def split: if_splits)

lemma propagates_append:
  "raised new1 = [] \<Longrightarrow> propagates new2 r \<Longrightarrow> propagates (new1 @ new2) r"
  by (auto simp: propagates_def last_raised_def only_exits_append_quiet split: if_splits)

lemma regularI:
  assumes "\<And>s r s'. p s = (r, s') \<Longrightarrow>
     (\<exists>new. calls s' = calls s @ new \<and> propagates new (exn_of r))
     \<and> (\<forall>n. n \<notin> F \<longrightarrow> files s' n = files s n)"
  shows "regular F p"
  using assms unfolding regular_def by blast

lemma regularD:
  assumes "regular F p" "p s = (r, s')"
  shows "\<exists>new. calls s' = calls s @ new \<and> propagates new (exn_of r)"
    and "\<And>n. n \<notin> F \<Longrightarrow> files s' n = files s n"
  using assms unfolding regular_def by blast+

lemma regular_return: "regular F (nb_return a)"
  by (rule regularI) (auto simp: nb_return_def)

lemma regular_lift: "regular F (nb_lift x)"
  by (rule regularI) (auto simp: nb_lift_def)

lemma regular_print: "regular F (print_line l)"
  by (rule regularI) (auto simp: print_line_def)

lemma regular_isfile: "regular F (isfile n)"
  by (rule regularI) (auto simp: isfile_def)

lemma regular_ext: "regular F (ext L c)"
proof (rule regularI)
  fix s r s' assume "ext L c s = (r, s')"
  then have "calls s' = calls s @ [(c, r)]" "files s' = files s" by (auto dest: ext_any)
  then show "(\<exists>new. calls s' = calls s @ new \<and> propagates new (exn_of r))
     \<and> (\<forall>n. n \<notin> F \<longrightarrow> files s' n = files s n)"
    using propagates_single[of c r] by auto
qed

lemma regular_bind:
  assumes m: "regular F m" and f: "\<And>a. regular F (f a)"
  shows "regular F (nb_bind m f)"
proof (rule regularI)
  fix s r s' assume run: "nb_bind m f s = (r, s')"
  from run show "(\<exists>new. calls s' = calls s @ new \<and> propagates new (exn_of r))
     \<and> (\<forall>n. n \<notin> F \<longrightarrow> files s' n = files s n)"
  proof (cases rule: nb_bindE)
    case (fail e)
    with regularD[OF m fail(1)] show ?thesis by (auto simp: exn_of_def)
  next
    case (ok a s1)
    from regularD[OF m ok(1)] have "\<exists>new. calls s1 = calls s @ new \<and> propagates new None"
      by (simp add: exn_of_def)
    with regularD(2)[OF m ok(1)] obtain new1 where 1: "calls s1 = calls s @ new1"
      "propagates new1 None" and f1: "\<And>n. n \<notin> F \<Longrightarrow> files s1 n = files s n" by blast
    from regularD[OF f ok(2)] obtain new2 where 2: "calls s' = calls s1 @ new2"
      "propagates new2 (exn_of r)" and f2: "\<And>n. n \<notin> F \<Longrightarrow> files s' n = files s1 n" by blast
    have "propagates (new1 @ new2) (exn_of r)"
      by (rule propagates_append[OF propagates_quiet[OF 1(2)] 2(2)])
    with 1 2 f1 f2 show ?thesis by auto
  qed
qed

lemma regular_typed:
  assumes "\<And>r. (\<exists>a. k r = nb_return a) \<or> (\<exists>x. k r = nb_lift x)"
  shows "regular F (nb_bind (ext L c) k)"
proof (rule regular_bind[OF regular_ext])
  fix a
  from assms[of a] show "regular F (k a)" by (auto simp: regular_return regular_lift)
qed

lemma regular_ext_unit: "regular F (ext_unit L c)"
  unfolding ext_unit_def by (rule regular_typed) simp

lemma regular_ext_real: "regular F (ext_real L c)"
  unfolding ext_real_def by (rule regular_typed) (auto split: res.splits)

lemma regular_ext_num: "regular F (ext_num L c)"
  unfolding ext_num_def by (rule regular_typed) (auto split: res.splits)

lemma regular_ext_mat: "regular F (ext_mat L c)"
  unfolding ext_mat_def by (rule regular_typed) (auto split: res.splits)

lemma regular_ext_tensor: "regular F (ext_tensor L c)"
  unfolding ext_tensor_def by (rule regular_typed) (auto split: res.splits)

lemma regular_ext_tensors: "regular F (ext_tensors L c)"
  unfolding ext_tensors_def by (rule regular_typed) (auto split: res.splits)

lemma regular_ext_dist: "regular F (ext_dist L c)"
  unfolding ext_dist_def by (rule regular_typed) (auto split: res.splits)

lemma regular_for_each:
  assumes "\<And>i. regular F (body i)"
  shows "regular F (for_each xs body)"
proof (induction xs)
  case Nil
  show ?case by (rule regularI) auto
next
  case (Cons i xs)
  have "for_each (i # xs) body = nb_bind (body i) (\<lambda>_. for_each xs body)"
    by (rule ext) (simp add: nb_bind_def)
  then show ?case using regular_bind[OF assms[of i], of "\<lambda>_. for_each xs body"] Cons by simp
qed

lemma regular_for_range: "(\<And>i. regular F (body i)) \<Longrightarrow> regular F (for_range n body)"
  unfolding for_range_def by (rule regular_for_each)

lemma regular_do_all: "regular F (do_all L cs)"
proof (induction cs)
  case Nil
  show ?case by (rule regularI) auto
next
  case (Cons c cs)
  have "do_all L (c # cs) = nb_bind (ext_unit L c) (\<lambda>_. do_all L cs)"
    by (rule ext) (simp add: nb_bind_def)
  then show ?case using regular_bind[OF regular_ext_unit, of F "\<lambda>_. do_all L cs"] Cons by simp
qed

lemma regular_with_ctx:
  assumes body: "regular F body" and ex: "is_exit exit"
  shows "regular F (with_ctx L enter exit body)"
proof (rule regularI)
  fix s r s' assume run: "with_ctx L enter exit body s = (r, s')"
  from run show "(\<exists>new. calls s' = calls s @ new \<and> propagates new (exn_of r))
     \<and> (\<forall>n. n \<notin> F \<longrightarrow> files s' n = files s n)"
  proof (cases rule: with_ctxE)
    case (enter_fail e)
    from ext_any[OF enter_fail(1)] enter_fail(2) show ?thesis
      using propagates_single[of enter "Inl e"] by (auto simp: exn_of_def)
  next
    case (exit_fail a s1 rb s2 e)
    from ext_any[OF exit_fail(1)] have 1: "calls s1 = calls s @ [(enter, Inr a)]"
      "files s1 = files s" by simp_all
    from regularD[OF body exit_fail(2)] obtain nb where 2: "calls s2 = calls s1 @ nb"
      "propagates nb (exn_of rb)" and f2: "\<And>n. n \<notin> F \<Longrightarrow> files s2 n = files s1 n" by blast
    from ext_any[OF exit_fail(3)] have 3: "calls s' = calls s2 @ [(exit, Inl e)]"
      "files s' = files s2" by simp_all
    have "only_exits_after_raise (([(enter, Inr a)] @ nb) @ [(exit, Inl e)])"
      unfolding only_exits_snoc using 2(2) ex
      by (simp add: propagates_def)
    then have "propagates ([(enter, Inr a)] @ nb @ [(exit, Inl e)]) (exn_of r)"
      using exit_fail(4) by (simp add: propagates_def last_raised_def exn_of_def)
    with 1 2 3 f2 show ?thesis by auto
  next
    case (exit_ok a s1 s2 b)
    from ext_any[OF exit_ok(1)] have 1: "calls s1 = calls s @ [(enter, Inr a)]"
      "files s1 = files s" by simp_all
    from regularD[OF body exit_ok(2)] obtain nb where 2: "calls s2 = calls s1 @ nb"
      "propagates nb (exn_of r)" and f2: "\<And>n. n \<notin> F \<Longrightarrow> files s2 n = files s1 n" by blast
    from ext_any[OF exit_ok(3)] have 3: "calls s' = calls s2 @ [(exit, Inr b)]"
      "files s' = files s2" by simp_all
    have "only_exits_after_raise (([(enter, Inr a)] @ nb) @ [(exit, Inr b)])"
      unfolding only_exits_snoc using 2(2) ex
      by (simp add: propagates_def)
    then have "propagates ([(enter, Inr a)] @ nb @ [(exit, Inr b)]) (exn_of r)"
      using 2(2) by (auto simp: propagates_def last_raised_def split: if_splits)
    with 1 2 3 f2 show ?thesis by auto
  qed
qed

lemmas regular_intros =
  regular_bind regular_return regular_lift regular_print regular_isfile
  regular_ext_unit regular_ext_real regular_ext_num regular_ext_mat regular_ext_tensor
  regular_ext_tensors regular_ext_dist regular_for_range regular_do_all regular_with_ctx

section \<open>The cells are regular\<close>








lemma regular_keops_predict_cell: "regular F (keops_predict_cell L te_x)"
  unfolding keops_predict_cell_def by (intro regular_intros) simp_all





lemma regular_deriv_predict_cell: "regular F (deriv_predict_cell L)"
  unfolding deriv_predict_cell_def Let_def by (intro regular_intros) simp_all




lemma regular_calls: "regular F p \<Longrightarrow> p s = (r, s') \<Longrightarrow> calls s' = calls s @ new_calls s s'"
  by (auto dest!: regularD(1) simp: new_calls_def)

section \<open>Exceptions\<close>



section \<open>Files\<close>









section \<open>Prediction in evaluation mode\<close>

lemma with_ctx_Inr:
  "with_ctx L enter exit body s = (Inr x, s') \<Longrightarrow>
     \<exists>a s1 s2 b. ext L enter s = (Inr a, s1) \<and> body s1 = (Inr x, s2)
        \<and> ext L exit s2 = (Inr b, s')"
  by (auto simp: with_ctx_def split: prod.splits sum.splits)

lemma keops_predict_cell_Inr:
  assumes "keops_predict_cell L te_x s = (Inr d, s')"
  shows "\<exists>f. (LikCall f, Inr (RDist d)) \<in> set (new_calls s s')"
  using assms unfolding keops_predict_cell_def
  by (fastforce dest!: nb_bind_Inr with_ctx_Inr ext_unit_Inr ext_dist_Inr ext_Inr
        simp: new_calls_def)

lemma ext_tensor_Inr:
  "ext_tensor L c s = (Inr x, s') \<Longrightarrow>
     calls s' = calls s @ [(c, Inr (RTensor x))] \<and> stdout s' = stdout s \<and> files s' = files s"
  by (auto simp: ext_tensor_def nb_return_def nb_lift_def dest!: nb_bind_Inr ext_Inr split: res.splits)

lemma ext_tensors_Inr:
  "ext_tensors L c s = (Inr x, s') \<Longrightarrow>
     calls s' = calls s @ [(c, Inr (RTensors (fst x) (snd x)))] \<and> stdout s' = stdout s
     \<and> files s' = files s"
  by (auto simp: ext_tensors_def nb_return_def nb_lift_def dest!: nb_bind_Inr ext_Inr split: res.splits)

lemma deriv_predict_cell_Inr:
  assumes "deriv_predict_cell L s = (Inr u, s')"
  shows "\<exists>f d. (LikCall f, Inr (RDist d)) \<in> set (new_calls s s')"
  using assms unfolding deriv_predict_cell_def Let_def
  by (fastforce dest!: nb_bind_Inr with_ctx_Inr ext_unit_Inr ext_dist_Inr ext_Inr
        ext_tensor_Inr ext_tensors_Inr do_all_calls
        simp: new_calls_def nb_return_def)

lemma scan_at:
  assumes cs: "calls s' = calls s @ new_calls s s'"
    and sc: "\<And>a b c g. predict_scan a b c g (new_calls s s')"
    and k: "length (calls s) \<le> k" "k < length (calls s')" "is_predict (fst (calls s' ! k))"
  shows "last_call is_model_mode (take k (calls s')) = Some ModelEval
     \<and> last_call is_lik_mode (take k (calls s')) = Some LikEval
     \<and> last_call is_mode (take k (calls s')) = Some LikEval
     \<and> last_call is_grad_ctx (take k (calls s')) = Some NoGradEnter"
proof -
  let ?j = "k - length (calls s)"
  have j: "?j < length (new_calls s s')" using k cs
    by (metis add_diff_inverse_nat length_append nat_add_left_cancel_less not_less)
  have nth: "calls s' ! k = new_calls s s' ! ?j"
    using k(1) by (subst cs) (simp add: nth_append)
  have tk: "take k (calls s') = calls s @ take ?j (new_calls s s')"
    using k(1) by (subst cs) simp
  from predict_scan_sound[OF sc j, of "calls s"] k(3) nth show ?thesis
    unfolding tk by simp
qed

lemma in_new_calls:
  assumes cs: "calls s' = calls s @ new_calls s s'" and ev: "ev \<in> set (new_calls s s')"
  shows "\<exists>k. length (calls s) \<le> k \<and> k < length (calls s') \<and> calls s' ! k = ev"
proof -
  from ev obtain j where j: "j < length (new_calls s s')" "new_calls s s' ! j = ev"
    by (auto simp: in_set_conv_nth)
  have "calls s' ! (length (calls s) + j) = ev"
    by (subst cs) (simp add: j)
  moreover have "length (calls s) + j < length (calls s')"
    by (subst cs) (simp add: j)
  ultimately show ?thesis by (intro exI[of _ "length (calls s) + j"]) simp
qed

text \<open>
  Claim C5. In both notebooks, at each call that computes the prediction
  \<open>likelihood(model(test_x))\<close>, the most recent mode-switching call on the model is
  \<open>eval()\<close>, the most recent one on the likelihood is \<open>eval()\<close> (and it is the most
  recent mode-switching call of all, so the likelihood is in evaluation mode also where
  the mode of a model reaches its likelihood), and the no-gradient context has been
  entered and not left. This holds whatever ran before the cell. A prediction cell that
  ends without an exception has made such a call.
\<close>

theorem prediction_in_eval_mode:
  "(\<forall>(L :: ('w, 'd) lib) te_x s r s'. keops_predict_cell L te_x s = (r, s') \<longrightarrow>
      (\<forall>k. length (calls s) \<le> k \<and> k < length (calls s') \<and> is_predict (fst (calls s' ! k)) \<longrightarrow>
         last_call is_model_mode (take k (calls s')) = Some ModelEval
         \<and> last_call is_lik_mode (take k (calls s')) = Some LikEval
         \<and> last_call is_mode (take k (calls s')) = Some LikEval
         \<and> last_call is_grad_ctx (take k (calls s')) = Some NoGradEnter)
      \<and> (\<forall>d. r = Inr d \<longrightarrow>
            (\<exists>k f. length (calls s) \<le> k \<and> k < length (calls s')
                \<and> calls s' ! k = (LikCall f, Inr (RDist d)))))
   \<and> (\<forall>(L :: ('w, 'd) lib) s r s'. deriv_predict_cell L s = (r, s') \<longrightarrow>
      (\<forall>k. length (calls s) \<le> k \<and> k < length (calls s') \<and> is_predict (fst (calls s' ! k)) \<longrightarrow>
         last_call is_model_mode (take k (calls s')) = Some ModelEval
         \<and> last_call is_lik_mode (take k (calls s')) = Some LikEval
         \<and> last_call is_mode (take k (calls s')) = Some LikEval
         \<and> last_call is_grad_ctx (take k (calls s')) = Some NoGradEnter)
      \<and> (r = Inr () \<longrightarrow>
            (\<exists>k f d. length (calls s) \<le> k \<and> k < length (calls s')
                \<and> calls s' ! k = (LikCall f, Inr (RDist d)))))"
proof (intro conjI allI impI)
  fix L :: "('w, 'd) lib" and te_x s r s' k
  assume run: "keops_predict_cell L te_x s = (r, s')"
    and k: "length (calls s) \<le> k \<and> k < length (calls s') \<and> is_predict (fst (calls s' ! k))"
  note cs = regular_calls[OF regular_keops_predict_cell[of "{}"] run]
  from scan_at[OF cs keops_predict_cell_scan[OF run]] k
  show "last_call is_model_mode (take k (calls s')) = Some ModelEval"
    "last_call is_lik_mode (take k (calls s')) = Some LikEval"
    "last_call is_mode (take k (calls s')) = Some LikEval"
    "last_call is_grad_ctx (take k (calls s')) = Some NoGradEnter" by blast+
next
  fix L :: "('w, 'd) lib" and te_x s r s' d
  assume run: "keops_predict_cell L te_x s = (r, s')" and r: "r = Inr d"
  note cs = regular_calls[OF regular_keops_predict_cell[of "{}"] run]
  from keops_predict_cell_Inr[OF run[unfolded r]] obtain f where
    "(LikCall f, Inr (RDist d)) \<in> set (new_calls s s')" by blast
  from in_new_calls[OF cs this]
  show "\<exists>k f. length (calls s) \<le> k \<and> k < length (calls s')
                \<and> calls s' ! k = (LikCall f, Inr (RDist d))" by blast
next
  fix L :: "('w, 'd) lib" and s r s' k
  assume run: "deriv_predict_cell L s = (r, s')"
    and k: "length (calls s) \<le> k \<and> k < length (calls s') \<and> is_predict (fst (calls s' ! k))"
  note cs = regular_calls[OF regular_deriv_predict_cell[of "{}"] run]
  from scan_at[OF cs deriv_predict_cell_scan[OF run]] k
  show "last_call is_model_mode (take k (calls s')) = Some ModelEval"
    "last_call is_lik_mode (take k (calls s')) = Some LikEval"
    "last_call is_mode (take k (calls s')) = Some LikEval"
    "last_call is_grad_ctx (take k (calls s')) = Some NoGradEnter" by blast+
next
  fix L :: "('w, 'd) lib" and s r s'
  assume run: "deriv_predict_cell L s = (r, s')" and r: "r = Inr ()"
  note cs = regular_calls[OF regular_deriv_predict_cell[of "{}"] run]
  from deriv_predict_cell_Inr[OF run[unfolded r]] obtain f d where
    "(LikCall f, Inr (RDist d)) \<in> set (new_calls s s')" by blast
  from in_new_calls[OF cs this]
  show "\<exists>k f d. length (calls s) \<le> k \<and> k < length (calls s')
                \<and> calls s' ! k = (LikCall f, Inr (RDist d))" by blast
qed

lemma keops_predict_cell_ok: "never_fails L \<Longrightarrow> succeeds (keops_predict_cell L te_x)"
  unfolding keops_predict_cell_def
  by (intro succeeds_intros succeeds_with_ctx) 

lemma deriv_predict_cell_ok: "never_fails L \<Longrightarrow> succeeds (deriv_predict_cell L)"
  unfolding deriv_predict_cell_def Let_def
  by (intro succeeds_intros succeeds_with_ctx succeeds_do_all)

theorem prediction_in_eval_mode_witness:
  "(\<exists>s' d k f.
     keops_predict_cell example_lib (of_vec [Fin 1]) empty_state = (Inr d, s')
     \<and> length (calls empty_state) \<le> k \<and> k < length (calls s')
     \<and> calls s' ! k = (LikCall f, Inr (RDist d))
     \<and> is_predict (fst (calls s' ! k))
     \<and> last_call is_model_mode (take k (calls s')) = Some ModelEval
     \<and> last_call is_lik_mode (take k (calls s')) = Some LikEval
     \<and> last_call is_grad_ctx (take k (calls s')) = Some NoGradEnter)
   \<and> (\<exists>s' d k f.
     deriv_predict_cell example_lib empty_state = (Inr (), s')
     \<and> length (calls empty_state) \<le> k \<and> k < length (calls s')
     \<and> calls s' ! k = (LikCall f, Inr (RDist d))
     \<and> is_predict (fst (calls s' ! k))
     \<and> last_call is_model_mode (take k (calls s')) = Some ModelEval
     \<and> last_call is_lik_mode (take k (calls s')) = Some LikEval
     \<and> last_call is_grad_ctx (take k (calls s')) = Some NoGradEnter)"
proof
  from keops_predict_cell_ok[OF example_lib_never_fails, of "of_vec [Fin 1]"]
  obtain d s' where
    run: "keops_predict_cell example_lib (of_vec [Fin 1]) empty_state = (Inr d, s')"
    unfolding succeeds_def by blast
  note c5 = prediction_in_eval_mode[THEN conjunct1, rule_format, OF run]
  from c5 obtain k f where k: "length (calls empty_state) \<le> k" "k < length (calls s')"
    "calls s' ! k = (LikCall f, Inr (RDist d))" by blast
  then have p: "is_predict (fst (calls s' ! k))" by simp
  with c5 k have "last_call is_model_mode (take k (calls s')) = Some ModelEval"
    "last_call is_lik_mode (take k (calls s')) = Some LikEval"
    "last_call is_grad_ctx (take k (calls s')) = Some NoGradEnter" by blast+
  with run k p show "\<exists>s' d k f.
     keops_predict_cell example_lib (of_vec [Fin 1]) empty_state = (Inr d, s')
     \<and> length (calls empty_state) \<le> k \<and> k < length (calls s')
     \<and> calls s' ! k = (LikCall f, Inr (RDist d))
     \<and> is_predict (fst (calls s' ! k))
     \<and> last_call is_model_mode (take k (calls s')) = Some ModelEval
     \<and> last_call is_lik_mode (take k (calls s')) = Some LikEval
     \<and> last_call is_grad_ctx (take k (calls s')) = Some NoGradEnter" by blast
next
  from deriv_predict_cell_ok[OF example_lib_never_fails]
  obtain s' where
    run: "deriv_predict_cell example_lib empty_state = (Inr (), s')"
    unfolding succeeds_def by auto
  note c5 = prediction_in_eval_mode[THEN conjunct2, rule_format, OF run]
  from c5 obtain k f d where k: "length (calls empty_state) \<le> k" "k < length (calls s')"
    "calls s' ! k = (LikCall f, Inr (RDist d))" by blast
  then have p: "is_predict (fst (calls s' ! k))" by simp
  with c5 k have "last_call is_model_mode (take k (calls s')) = Some ModelEval"
    "last_call is_lik_mode (take k (calls s')) = Some LikEval"
    "last_call is_grad_ctx (take k (calls s')) = Some NoGradEnter" by blast+
  with run k p show "\<exists>s' d k f.
     deriv_predict_cell example_lib empty_state = (Inr (), s')
     \<and> length (calls empty_state) \<le> k \<and> k < length (calls s')
     \<and> calls s' ! k = (LikCall f, Inr (RDist d))
     \<and> is_predict (fst (calls s' ! k))
     \<and> last_call is_model_mode (take k (calls s')) = Some ModelEval
     \<and> last_call is_lik_mode (take k (calls s')) = Some LikEval
     \<and> last_call is_grad_ctx (take k (calls s')) = Some NoGradEnter" by blast
qed

end
